theory Spec2Isabelle
  imports Main
begin

unbundle bit_operations_syntax

section \<open>Machine model\<close>

text \<open>
  The embedding is for a 64-bit target (LP64): \<open>size_t\<close> and pointers are 64 bits wide.
  Sizes and addresses are natural numbers below \<open>2 ^ 64\<close>; every \<open>size_t\<close> operation of
  the source that can wrap is written with its reduction modulo \<open>2 ^ 64\<close>.
  Address \<open>0\<close> is \<open>nullptr\<close>.
\<close>

type_synonym addr = nat
type_synonym size_t = nat

text \<open>The number of values of \<open>size_t\<close> and of addresses.\<close>

definition SIZE_MOD :: nat where
  "SIZE_MOD = 2 ^ 64"

definition nullptr :: addr where
  "nullptr = 0"

definition sz_add :: "size_t \<Rightarrow> size_t \<Rightarrow> size_t" where
  "sz_add a b = (a + b) mod SIZE_MOD"

definition sz_sub :: "size_t \<Rightarrow> size_t \<Rightarrow> size_t" where
  "sz_sub a b = (a + SIZE_MOD - b mod SIZE_MOD) mod SIZE_MOD"

definition sz_mul :: "size_t \<Rightarrow> size_t \<Rightarrow> size_t" where
  "sz_mul a b = (a * b) mod SIZE_MOD"

definition sz_not :: "size_t \<Rightarrow> size_t" where
  "sz_not a = SIZE_MOD - 1 - a mod SIZE_MOD"

text \<open>Pointer arithmetic on \<open>char*\<close>, in the flat 64-bit address space.\<close>

definition ptr_add :: "addr \<Rightarrow> size_t \<Rightarrow> addr" where
  "ptr_add p n = (p + n) mod SIZE_MOD"

definition ptr_sub :: "addr \<Rightarrow> size_t \<Rightarrow> addr" where
  "ptr_sub p n = (p + SIZE_MOD - n mod SIZE_MOD) mod SIZE_MOD"

section \<open>Data model (include/allocator.h)\<close>

definition CANARY_VALUE :: nat where
  "CANARY_VALUE = 0xDEADC0DE"

text \<open>
  \<open>struct Block\<close>. The fields \<open>is_free\<close>, \<open>pool_id\<close> and \<open>canary_front\<close> exist in
  \<open>DEBUG\<close> builds only; the release operations below never read or write them.
\<close>

record Block =
  "next" :: addr
  is_free :: bool
  pool_id :: nat
  canary_front :: nat

text \<open>
  \<open>sizeof(Block)\<close> and \<open>alignof(Block)\<close> on LP64: one pointer in a release build;
  pointer, \<open>bool\<close>, padding and two \<open>uint32_t\<close> in a \<open>DEBUG\<close> build.
  The first argument of every operation says whether the build defines \<open>DEBUG\<close>.
\<close>

definition sizeof_Block :: "bool \<Rightarrow> size_t" where
  "sizeof_Block dbg = (if dbg then 24 else 8)"

definition alignof_Block :: size_t where
  "alignof_Block = 8"

definition sizeof_uint32 :: size_t where
  "sizeof_uint32 = 4"

definition alignof_ptr :: size_t where
  "alignof_ptr = 8"

text \<open>
  \<open>struct MemoryPool\<close>; \<open>payload_size\<close> is the field that the constructor in
  src/allocator.cpp assigns.
\<close>

record MemoryPool =
  memory :: addr
  free_list :: addr
  block_size :: size_t
  block_count :: size_t
  payload_size :: size_t

text \<open>\<open>class Allocator\<close>; the \<open>unique_ptr\<close> is \<open>None\<close> when it holds no pool.\<close>

record Allocator =
  m_Initialized :: bool
  m_MemoryPool :: "MemoryPool option"
  m_PoolId :: nat

text \<open>
  The memory the allocators write to: the block headers, by the address of the block,
  and the \<open>uint32_t\<close> objects at the tail of the blocks (the rear canaries), by their
  address. Headers of a pool lie \<open>block_size\<close> bytes apart, and \<open>block_size\<close> is at least
  the size of a header and a rear canary, so distinct objects never share bytes.
\<close>

record heap =
  hdr :: "addr \<Rightarrow> Block"
  u32 :: "addr \<Rightarrow> nat"

definition set_next :: "addr \<Rightarrow> addr \<Rightarrow> heap \<Rightarrow> heap" where
  "set_next b v h = h\<lparr>hdr := (hdr h)(b := (hdr h b)\<lparr>next := v\<rparr>)\<rparr>"

definition set_is_free :: "addr \<Rightarrow> bool \<Rightarrow> heap \<Rightarrow> heap" where
  "set_is_free b v h = h\<lparr>hdr := (hdr h)(b := (hdr h b)\<lparr>is_free := v\<rparr>)\<rparr>"

definition set_pool_id :: "addr \<Rightarrow> nat \<Rightarrow> heap \<Rightarrow> heap" where
  "set_pool_id b v h = h\<lparr>hdr := (hdr h)(b := (hdr h b)\<lparr>pool_id := v\<rparr>)\<rparr>"

definition set_canary_front :: "addr \<Rightarrow> nat \<Rightarrow> heap \<Rightarrow> heap" where
  "set_canary_front b v h = h\<lparr>hdr := (hdr h)(b := (hdr h b)\<lparr>canary_front := v\<rparr>)\<rparr>"

definition set_u32 :: "addr \<Rightarrow> nat \<Rightarrow> heap \<Rightarrow> heap" where
  "set_u32 p v h = h\<lparr>u32 := (u32 h)(p := v)\<rparr>"

text \<open>\<open>std::construct_at\<close> of a \<open>Block\<close> value-initialises it: every field is zero.\<close>

definition construct_at :: "addr \<Rightarrow> heap \<Rightarrow> heap" where
  "construct_at b h =
     h\<lparr>hdr := (hdr h)(b := \<lparr>next = nullptr, is_free = False, pool_id = 0, canary_front = 0\<rparr>)\<rparr>"

text \<open>The address of the rear canary of a block: \<open>(char*)block + block_size - sizeof(uint32_t)\<close>.\<close>

definition rear_of :: "addr \<Rightarrow> size_t \<Rightarrow> addr" where
  "rear_of block bs = ptr_sub (ptr_add block bs) sizeof_uint32"

text \<open>
  What a call can do besides returning: abort after one of the diagnostics of
  src/allocator.cpp, or dereference an empty \<open>unique_ptr\<close>.
\<close>

datatype diag =
  NotFromPool       \<comment> \<open>Invalid free (pointer not from pool)\<close>
  | NotBlockAligned \<comment> \<open>Invalid free (not block aligned)\<close>
  | WrongAllocator  \<comment> \<open>Invalid free (wrong allocator)\<close>
  | DoubleFree      \<comment> \<open>Double free error\<close>
  | CanarySmashed   \<comment> \<open>Memory corruption detected (canary smashed)\<close>
  | Corruption      \<comment> \<open>Allocator corruption detected\<close>

datatype 'a outcome = Returned 'a | Aborted diag | NullDeref

section \<open>Fixed pool allocator (src/allocator.cpp)\<close>

definition align_up :: "size_t \<Rightarrow> size_t" where
  "align_up sz =
     (let alignment = alignof_Block
      in sz_sub (sz_add sz alignment) 1 AND sz_not (sz_sub alignment 1))"

text \<open>Lines 19 to 26 of the constructor: the stride computed from the payload size.\<close>

definition raw_block_size :: "bool \<Rightarrow> size_t \<Rightarrow> size_t" where
  "raw_block_size dbg payload =
     (let raw = sz_add (sizeof_Block dbg) payload;
          raw = (if dbg then sz_add raw sizeof_uint32 else raw)
      in align_up raw)"

text \<open>
  The body of the constructor's loop for index \<open>i\<close>; the pair is the memory and
  \<open>m_MemoryPool->free_list\<close>.
\<close>

definition init_block :: "bool \<Rightarrow> nat \<Rightarrow> addr \<Rightarrow> size_t \<Rightarrow> heap \<times> addr \<Rightarrow> nat \<Rightarrow> heap \<times> addr" where
  "init_block dbg pid start bs s i =
     (let (h, fl) = s;
          block = ptr_add start (sz_mul i bs);
          h = construct_at block h;
          h = set_next block fl h;
          h = (if dbg
               then set_u32 (rear_of block bs) CANARY_VALUE
                      (set_canary_front block CANARY_VALUE
                        (set_pool_id block pid (set_is_free block True h)))
               else h)
      in (h, block))"

text \<open>The loop \<open>for (size_t i = 0; i < block_count; i++)\<close> of the constructor.\<close>

definition init_blocks :: "bool \<Rightarrow> nat \<Rightarrow> addr \<Rightarrow> size_t \<Rightarrow> heap \<times> addr \<Rightarrow> size_t \<Rightarrow> heap \<times> addr" where
  "init_blocks dbg pid start bs s bcount = foldl (init_block dbg pid start bs) s [0..<bcount]"

text \<open>
  \<open>Allocator::Allocator(block_size, block_count)\<close>. \<open>this\<close> is the address of the object
  under construction and \<open>mem\<close> is what \<open>std::malloc\<close> returned for the request of
  \<open>block_size * block_count\<close> bytes (\<open>nullptr\<close> when it has no buffer).
  \<open>m_PoolId\<close> exists in \<open>DEBUG\<close> builds only and is assigned on the successful path only.
\<close>

definition Allocator_ctor ::
  "bool \<Rightarrow> addr \<Rightarrow> addr \<Rightarrow> heap \<Rightarrow> size_t \<Rightarrow> size_t \<Rightarrow> heap \<times> Allocator" where
  "Allocator_ctor dbg this mem h bsize bcount =
     (if bsize = 0 \<or> bcount = 0
      then (h, \<lparr>m_Initialized = False, m_MemoryPool = None, m_PoolId = 0\<rparr>)
      else
        let pool = \<lparr>memory = mem, free_list = nullptr,
                    block_size = raw_block_size dbg bsize,
                    block_count = bcount, payload_size = bsize\<rparr>
        in if mem = nullptr
           then (h, \<lparr>m_Initialized = False, m_MemoryPool = Some pool, m_PoolId = 0\<rparr>)
           else
             let pid = (if dbg then this AND 0xFFFFFFFF else 0);
                 (h', fl) = init_blocks dbg pid mem (block_size pool) (h, free_list pool) bcount
             in (h', \<lparr>m_Initialized = True,
                       m_MemoryPool = Some (pool\<lparr>free_list := fl\<rparr>),
                       m_PoolId = pid\<rparr>))"

definition Allocator_is_initialized :: "Allocator \<Rightarrow> bool" where
  "Allocator_is_initialized a = m_Initialized a"

text \<open>\<open>block_size()\<close> dereferences \<open>m_MemoryPool\<close> without a check.\<close>

definition Allocator_block_size :: "Allocator \<Rightarrow> size_t outcome" where
  "Allocator_block_size a =
     (case m_MemoryPool a of None \<Rightarrow> NullDeref | Some pool \<Rightarrow> Returned (block_size pool))"

text \<open>
  \<open>allocate()\<close> and \<open>free(ptr)\<close>. Each call takes the mutex of the pool before it reads
  the pool and holds it to its return, so calls on one pool happen one after the other; the embedding
  is of one call, from the memory and the allocator before it to the outcome and the
  memory and the allocator after it. An abort leaves them as they were when it struck.
  The destructor, which hands the buffer back, is not modelled.
\<close>

definition Allocator_allocate :: "bool \<Rightarrow> heap \<times> Allocator \<Rightarrow> addr outcome \<times> heap \<times> Allocator" where
  "Allocator_allocate dbg s =
     (let (h, a) = s in
      if \<not> m_Initialized a \<or> m_MemoryPool a = None then (Returned nullptr, s)
      else
        let pool = the (m_MemoryPool a) in
        if free_list pool = nullptr then (Returned nullptr, s)
        else
          let block = free_list pool;
              a = a\<lparr>m_MemoryPool := Some (pool\<lparr>free_list := next (hdr h block)\<rparr>)\<rparr>
          in if dbg
             then
               if \<not> is_free (hdr h block) then (Aborted Corruption, h, a)
               else
                 let h = set_is_free block False h;
                     h = set_canary_front block CANARY_VALUE h;
                     h = set_u32 (rear_of block (block_size pool)) CANARY_VALUE h
                 in (Returned (ptr_add block (sizeof_Block dbg)), h, a)
             else (Returned (ptr_add block (sizeof_Block dbg)), h, a))"

definition Allocator_free :: "bool \<Rightarrow> addr \<Rightarrow> heap \<times> Allocator \<Rightarrow> unit outcome \<times> heap \<times> Allocator" where
  "Allocator_free dbg ptr s =
     (let (h, a) = s in
      if ptr = nullptr then (Returned (), s)
      else if \<not> m_Initialized a \<or> m_MemoryPool a = None then (Returned (), s)
      else
        let pool = the (m_MemoryPool a);
            mem_start = memory pool;
            mem_end = ptr_add mem_start (sz_mul (block_size pool) (block_count pool));
            block_ptr = ptr_sub ptr (sizeof_Block dbg)
        in if block_ptr < mem_start \<or> block_ptr \<ge> mem_end then (Aborted NotFromPool, s)
           else
             let offset = block_ptr - mem_start in
             if offset mod block_size pool \<noteq> 0 then (Aborted NotBlockAligned, s)
             else
               let block = block_ptr;
                   push = (\<lambda>h. (Returned (),
                                 set_next block (free_list pool) h,
                                 a\<lparr>m_MemoryPool := Some (pool\<lparr>free_list := block\<rparr>)\<rparr>))
               in if dbg
                  then
                    if pool_id (hdr h block) \<noteq> m_PoolId a then (Aborted WrongAllocator, s)
                    else if is_free (hdr h block) then (Aborted DoubleFree, s)
                    else if canary_front (hdr h block) \<noteq> CANARY_VALUE
                            \<or> u32 h (rear_of block (block_size pool)) \<noteq> CANARY_VALUE
                    then (Aborted CanarySmashed, s)
                    else push (set_is_free block True h)
                  else push h)"

section \<open>Slab dispatcher (src/allocator_slab.cpp)\<close>

text \<open>
  \<open>SlabAllocator\<close> is its vector \<open>m_Slabs\<close>. The constructor builds four pools of 100
  blocks; \<open>e0\<close> to \<open>e3\<close> give, for each, the address of the new \<open>Allocator\<close> object
  and the answer of \<open>std::malloc\<close>.
\<close>

type_synonym SlabAllocator = "Allocator list"

definition SlabAllocator_ctor ::
  "bool \<Rightarrow> addr \<times> addr \<Rightarrow> addr \<times> addr \<Rightarrow> addr \<times> addr \<Rightarrow> addr \<times> addr \<Rightarrow> heap
     \<Rightarrow> heap \<times> SlabAllocator" where
  "SlabAllocator_ctor dbg e0 e1 e2 e3 h =
     (let (h, a0) = Allocator_ctor dbg (fst e0) (snd e0) h 64 100;
          (h, a1) = Allocator_ctor dbg (fst e1) (snd e1) h 128 100;
          (h, a2) = Allocator_ctor dbg (fst e2) (snd e2) h 256 100;
          (h, a3) = Allocator_ctor dbg (fst e3) (snd e3) h 512 100
      in (h, [a0, a1, a2, a3]))"

fun slab_allocate_loop ::
  "bool \<Rightarrow> size_t \<Rightarrow> heap \<Rightarrow> Allocator list \<Rightarrow> addr outcome \<times> heap \<times> Allocator list" where
  "slab_allocate_loop dbg sz h [] = (Returned nullptr, h, [])"
| "slab_allocate_loop dbg sz h (slab # rest) =
     (case Allocator_block_size slab of
        Returned bs \<Rightarrow>
          if sz \<le> bs
          then (let (r, h', slab') = Allocator_allocate dbg (h, slab) in (r, h', slab' # rest))
          else (let (r, h', rest') = slab_allocate_loop dbg sz h rest in (r, h', slab # rest'))
      | Aborted d \<Rightarrow> (Aborted d, h, slab # rest)
      | NullDeref \<Rightarrow> (NullDeref, h, slab # rest))"

definition SlabAllocator_allocate ::
  "bool \<Rightarrow> size_t \<Rightarrow> heap \<times> SlabAllocator \<Rightarrow> addr outcome \<times> heap \<times> SlabAllocator" where
  "SlabAllocator_allocate dbg sz s = slab_allocate_loop dbg sz (fst s) (snd s)"

fun slab_free_loop ::
  "bool \<Rightarrow> addr \<Rightarrow> size_t \<Rightarrow> heap \<Rightarrow> Allocator list \<Rightarrow> unit outcome \<times> heap \<times> Allocator list" where
  "slab_free_loop dbg ptr sz h [] = (Returned (), h, [])"
| "slab_free_loop dbg ptr sz h (slab # rest) =
     (case Allocator_block_size slab of
        Returned bs \<Rightarrow>
          if sz \<le> bs
          then (let (r, h', slab') = Allocator_free dbg ptr (h, slab) in (r, h', slab' # rest))
          else (let (r, h', rest') = slab_free_loop dbg ptr sz h rest in (r, h', slab # rest'))
      | Aborted d \<Rightarrow> (Aborted d, h, slab # rest)
      | NullDeref \<Rightarrow> (NullDeref, h, slab # rest))"

definition SlabAllocator_free ::
  "bool \<Rightarrow> addr \<Rightarrow> size_t \<Rightarrow> heap \<times> SlabAllocator \<Rightarrow> unit outcome \<times> heap \<times> SlabAllocator" where
  "SlabAllocator_free dbg ptr sz s = slab_free_loop dbg ptr sz (fst s) (snd s)"

section \<open>Calls in sequence\<close>

text \<open>
  \<open>n\<close> consecutive calls of \<open>allocate()\<close> on one pool, with the outcome of each; an
  abort ends the process, so no call follows it.
\<close>

fun allocate_n :: "bool \<Rightarrow> nat \<Rightarrow> heap \<times> Allocator \<Rightarrow> addr outcome list \<times> heap \<times> Allocator" where
  "allocate_n dbg 0 s = ([], s)"
| "allocate_n dbg (Suc n) s =
     (case Allocator_allocate dbg s of
        (Returned p, s') \<Rightarrow> (let (rs, s'') = allocate_n dbg n s' in (Returned p # rs, s''))
      | (r, s') \<Rightarrow> ([r], s'))"

section \<open>The free list and the invariant of a pool\<close>

text \<open>The \<open>next\<close> link of every block header in memory.\<close>

definition nextf :: "heap \<Rightarrow> addr \<Rightarrow> addr" where
  "nextf h b = next (hdr h b)"

text \<open>
  \<open>chain nx p bs\<close>: following the links \<open>nx\<close> from \<open>p\<close> visits exactly the blocks
  \<open>bs\<close>, in this order, and then reaches \<open>nullptr\<close>.
\<close>

fun chain :: "(addr \<Rightarrow> addr) \<Rightarrow> addr \<Rightarrow> addr list \<Rightarrow> bool" where
  "chain nx p [] = (p = nullptr)"
| "chain nx p (b # bs) = (p = b \<and> b \<noteq> nullptr \<and> chain nx (nx b) bs)"

text \<open>
  The traversal itself, giving up after \<open>n\<close> links: \<open>None\<close> when \<open>nullptr\<close> is not
  reached within \<open>n\<close> steps (as on a cycle).
\<close>

fun walk :: "nat \<Rightarrow> (addr \<Rightarrow> addr) \<Rightarrow> addr \<Rightarrow> addr list option" where
  "walk 0 nx p = (if p = nullptr then Some [] else None)"
| "walk (Suc n) nx p =
     (if p = nullptr then Some [] else map_option ((#) p) (walk n nx (nx p)))"

text \<open>The \<open>count\<close> fixed block slots of a pool, and the blocks on its free list.\<close>

definition slots :: "MemoryPool \<Rightarrow> addr list" where
  "slots pool = map (\<lambda>i. memory pool + i * block_size pool) [0..<block_count pool]"

definition free_blocks :: "heap \<Rightarrow> MemoryPool \<Rightarrow> addr list option" where
  "free_blocks h pool = walk (block_count pool) (nextf h) (free_list pool)"

text \<open>
  The blocks in use, given the set \<open>L\<close> of the pointers that \<open>allocate()\<close> has handed out
  and that have not been freed since: a payload pointer lies \<open>sizeof(Block)\<close> bytes
  behind its block.
\<close>

definition in_use_blocks :: "bool \<Rightarrow> addr set \<Rightarrow> addr set" where
  "in_use_blocks dbg L = (\<lambda>p. p - sizeof_Block dbg) ` L"

text \<open>
  The layout of an initialised pool: a buffer of \<open>block_size * block_count\<close> bytes inside
  the address space, with a stride that is a multiple of the header's alignment and
  has room for the header (and the rear canary of a \<open>DEBUG\<close> build).
\<close>

definition pool_layout :: "bool \<Rightarrow> Allocator \<Rightarrow> bool" where
  "pool_layout dbg a =
     (m_Initialized a \<and>
      (case m_MemoryPool a of
         None \<Rightarrow> False
       | Some pool \<Rightarrow>
           memory pool \<noteq> nullptr \<and>
           sizeof_Block dbg + (if dbg then sizeof_uint32 else 0) \<le> block_size pool \<and>
           block_size pool mod alignof_Block = 0 \<and>
           memory pool + block_size pool * block_count pool < SIZE_MOD))"

text \<open>
  The invariant of an initialised pool with the pointers \<open>L\<close> in use: the free list is a
  null-terminated chain without repetition through slots of the pool, and the free
  blocks and the blocks in use partition the slots. In a \<open>DEBUG\<close> build every slot also
  carries the pool's identifier, a liveness flag that says whether it is on the free
  list, and both canaries.
\<close>

definition pool_inv :: "bool \<Rightarrow> addr set \<Rightarrow> heap \<times> Allocator \<Rightarrow> bool" where
  "pool_inv dbg L s =
     (let (h, a) = s in
      pool_layout dbg a \<and>
      (case m_MemoryPool a of
         None \<Rightarrow> False
       | Some pool \<Rightarrow>
           (case free_blocks h pool of
              None \<Rightarrow> False
            | Some fs \<Rightarrow>
                distinct fs \<and>
                set fs \<subseteq> set (slots pool) \<and>
                set fs \<inter> in_use_blocks dbg L = {} \<and>
                set fs \<union> in_use_blocks dbg L = set (slots pool) \<and>
                (dbg \<longrightarrow>
                   (\<forall>b \<in> set (slots pool).
                      pool_id (hdr h b) = m_PoolId a \<and>
                      (is_free (hdr h b) \<longleftrightarrow> b \<in> set fs) \<and>
                      canary_front (hdr h b) = CANARY_VALUE \<and>
                      u32 h (rear_of b (block_size pool)) = CANARY_VALUE)))))"

section \<open>The effect of one call\<close>

text \<open>The block that \<open>free(ptr)\<close> examines: \<open>char* block_ptr = raw_ptr - sizeof(Block)\<close>.\<close>

definition block_ptr_of :: "bool \<Rightarrow> addr \<Rightarrow> addr" where
  "block_ptr_of dbg ptr = ptr_sub ptr (sizeof_Block dbg)"

text \<open>
  The memory after the writes of \<open>allocate()\<close> to the block \<open>b\<close> that it pops
  (lines 78 to 83, \<open>DEBUG\<close> builds only).
\<close>

definition after_allocate :: "bool \<Rightarrow> addr \<Rightarrow> MemoryPool \<Rightarrow> heap \<Rightarrow> heap" where
  "after_allocate dbg b pool h =
     (if dbg
      then set_u32 (rear_of b (block_size pool)) CANARY_VALUE
             (set_canary_front b CANARY_VALUE (set_is_free b False h))
      else h)"

text \<open>
  The memory after the writes of \<open>free(ptr)\<close> to the block \<open>b\<close> that it pushes
  (lines 129 and 131).
\<close>

definition after_free :: "bool \<Rightarrow> addr \<Rightarrow> MemoryPool \<Rightarrow> heap \<Rightarrow> heap" where
  "after_free dbg b pool h =
     set_next b (free_list pool) (if dbg then set_is_free b True h else h)"

section \<open>Successful constructions\<close>

text \<open>
  The answer \<open>mem\<close> of the memory source holds the pool that the constructor lays out:
  it is not null, the stride has room for a header (and for the rear canary of a
  \<open>DEBUG\<close> build), and \<open>block_count\<close> strides from \<open>mem\<close> on lie inside the address space.
  Then \<open>block_size * block_count\<close> has not wrapped around, the blocks do not overlap and
  the constructor writes inside the buffer that it requested.
\<close>

definition buffer_ok :: "bool \<Rightarrow> addr \<Rightarrow> size_t \<Rightarrow> size_t \<Rightarrow> bool" where
  "buffer_ok dbg mem bsize bcount =
     (mem \<noteq> nullptr \<and>
      sizeof_Block dbg + (if dbg then sizeof_uint32 else 0) \<le> raw_block_size dbg bsize \<and>
      mem + raw_block_size dbg bsize * bcount < SIZE_MOD)"

text \<open>The \<open>Allocator\<close> object that a successful construction leaves.\<close>

definition fresh_pool :: "bool \<Rightarrow> addr \<Rightarrow> addr \<Rightarrow> size_t \<Rightarrow> size_t \<Rightarrow> Allocator" where
  "fresh_pool dbg this mem bsize bcount =
     \<lparr>m_Initialized = True,
      m_MemoryPool = Some \<lparr>memory = mem,
                           free_list = mem + (bcount - 1) * raw_block_size dbg bsize,
                           block_size = raw_block_size dbg bsize,
                           block_count = bcount, payload_size = bsize\<rparr>,
      m_PoolId = (if dbg then this AND 0xFFFFFFFF else 0)\<rparr>"

text \<open>
  The answers \<open>m0\<close> to \<open>m3\<close> of the memory source to the four requests of the
  dispatcher's constructor hold the four pools, and no two of the buffers overlap.
\<close>

definition buffers_disjoint :: "addr \<Rightarrow> size_t \<Rightarrow> addr \<Rightarrow> size_t \<Rightarrow> bool" where
  "buffers_disjoint m n m' n' = (m + n \<le> m' \<or> m' + n' \<le> m)"

definition slab_buffers_ok :: "bool \<Rightarrow> addr \<Rightarrow> addr \<Rightarrow> addr \<Rightarrow> addr \<Rightarrow> bool" where
  "slab_buffers_ok dbg m0 m1 m2 m3 =
     (let n0 = raw_block_size dbg 64 * 100; n1 = raw_block_size dbg 128 * 100;
          n2 = raw_block_size dbg 256 * 100; n3 = raw_block_size dbg 512 * 100
      in buffer_ok dbg m0 64 100 \<and> buffer_ok dbg m1 128 100 \<and>
         buffer_ok dbg m2 256 100 \<and> buffer_ok dbg m3 512 100 \<and>
         buffers_disjoint m0 n0 m1 n1 \<and> buffers_disjoint m0 n0 m2 n2 \<and>
         buffers_disjoint m0 n0 m3 n3 \<and> buffers_disjoint m1 n1 m2 n2 \<and>
         buffers_disjoint m1 n1 m3 n3 \<and> buffers_disjoint m2 n2 m3 n3)"

text \<open>
  The size classes of a dispatcher: the payload size that the constructor of each pool
  was given, in the order of the pools.
\<close>

definition size_classes :: "SlabAllocator \<Rightarrow> size_t option list" where
  "size_classes slabs = map (\<lambda>a. map_option payload_size (m_MemoryPool a)) slabs"

section \<open>Concrete pools\<close>

text \<open>A memory in which no allocator has written yet: every header and word is zero.\<close>

definition heap0 :: heap where
  "heap0 = \<lparr>hdr = (\<lambda>_. \<lparr>next = nullptr, is_free = False, pool_id = 0, canary_front = 0\<rparr>),
            u32 = (\<lambda>_. 0)\<rparr>"

text \<open>
  A \<open>DEBUG\<close> pool of one block for 16 bytes, its object at address 8192 and its buffer
  at address 4096, as constructed and after one \<open>allocate()\<close>.
\<close>

definition ex_pool :: "heap \<times> Allocator" where
  "ex_pool = Allocator_ctor True 8192 4096 heap0 16 1"

definition ex_pool_busy :: "heap \<times> Allocator" where
  "ex_pool_busy = snd (Allocator_allocate True ex_pool)"

text \<open>
  A release pool of two blocks for 16 bytes in a buffer at address 4096, as constructed
  and after one \<open>allocate()\<close>.
\<close>

definition ex_release :: "heap \<times> Allocator" where
  "ex_release = Allocator_ctor False 8192 4096 heap0 16 2"

definition ex_release_busy :: "heap \<times> Allocator" where
  "ex_release_busy = snd (Allocator_allocate False ex_release)"

text \<open>
  A release dispatcher, its four \<open>Allocator\<close> objects at 8192, 8200, 8208 and 8216 and
  their buffers at 65536, 131072, 196608 and 262144.
\<close>

definition ex_slab :: "heap \<times> SlabAllocator" where
  "ex_slab = SlabAllocator_ctor False (8192, 65536) (8200, 131072) (8208, 196608)
               (8216, 262144) heap0"

section \<open>Arithmetic without wrap-around\<close>

lemma SIZE_MOD_gt1: "1 < SIZE_MOD"
  by (simp add: SIZE_MOD_def)

lemma bit_lt_64: "x < 2 ^ 64 \<Longrightarrow> bit (x::nat) n \<Longrightarrow> n < 64"
  by (metis bit_take_bit_iff take_bit_nat_eq_self_iff)

lemma and_not7: "x < 2 ^ 64 \<Longrightarrow> (x::nat) AND (2 ^ 64 - 1 - 7) = x div 8 * 8"
proof -
  assume x: "x < 2 ^ 64"
  have e: "(2::nat) ^ 64 - 1 - 7 = push_bit 3 (mask 61)"
    by (simp add: push_bit_eq_mult mask_eq_exp_minus_1)
  have f: "x div 8 * 8 = push_bit 3 (drop_bit 3 x)"
    by (simp add: push_bit_eq_mult drop_bit_eq_div)
  show ?thesis unfolding e f
  proof (rule bit_eqI)
    fix n
    show "bit (x AND push_bit 3 (mask 61)) n = bit (push_bit 3 (drop_bit 3 x)) n"
      using bit_lt_64[OF x, of n] by (auto simp add: bit_simps)
  qed
qed

lemma mod_pred_gen:
  fixes M :: nat
  assumes "1 < M"
  shows "((a + 8) mod M + M - 1 mod M) mod M = (a + 7) mod M"
proof -
  have "((a + 8) mod M + M - 1 mod M) mod M = ((a + 8) mod M + (M - 1)) mod M"
    using assms by simp
  also have "\<dots> = ((a + 8) + (M - 1)) mod M"
    by (rule mod_add_left_eq)
  also have "(a + 8) + (M - 1) = (a + 7) + M"
    using assms by simp
  finally show ?thesis by simp
qed

lemma align_up_eq: "align_up s = ((s + 7) mod SIZE_MOD) div 8 * 8"
proof -
  have a: "sz_sub (sz_add s 8) 1 = (s + 7) mod SIZE_MOD"
    unfolding sz_sub_def sz_add_def
    by (rule mod_pred_gen) (rule SIZE_MOD_gt1)
  have b: "sz_not (sz_sub 8 1) = 2 ^ 64 - 1 - 7"
    by (simp add: sz_not_def sz_sub_def SIZE_MOD_def)
  have c: "(s + 7) mod SIZE_MOD < (2 ^ 64 :: nat)"
    by (simp add: SIZE_MOD_def)
  show ?thesis
    unfolding align_up_def alignof_Block_def Let_def a b
    by (rule and_not7[OF c])
qed

lemma align_up_mod: "align_up s mod 8 = 0"
  by (simp add: align_up_eq)

lemma align_up_nowrap:
  assumes "s + 8 \<le> SIZE_MOD"
  shows "align_up s = (s + 7) div 8 * 8"
proof -
  have "s + 7 < SIZE_MOD" using assms by simp
  hence "(s + 7) mod SIZE_MOD = s + 7" by (rule mod_less)
  thus ?thesis by (simp only: align_up_eq)
qed

lemma round8_ge: "(s::nat) \<le> (s + 7) div 8 * 8"
  by arith

lemma round8_lt: "(s + 7) div 8 * 8 < (s::nat) + 8"
  by arith

lemma align_up_ge:
  assumes "s + 8 \<le> SIZE_MOD"
  shows "s \<le> align_up s"
  unfolding align_up_nowrap[OF assms] by (rule round8_ge)

lemma mod_sub_gen:
  fixes M :: nat
  assumes "n \<le> p" "p < M"
  shows "(p + M - n mod M) mod M = p - n"
proof -
  have e: "p + M - n mod M = (p - n) + M" using assms by simp
  have l: "p - n < M" using assms by simp
  show ?thesis unfolding e by (simp add: l)
qed

lemma ptr_add_nowrap: "p + n < SIZE_MOD \<Longrightarrow> ptr_add p n = p + n"
  unfolding ptr_add_def by (rule mod_less)

lemma ptr_sub_nowrap: "n \<le> p \<Longrightarrow> p < SIZE_MOD \<Longrightarrow> ptr_sub p n = p - n"
  unfolding ptr_sub_def by (rule mod_sub_gen)

lemma sz_mul_nowrap: "a * b < SIZE_MOD \<Longrightarrow> sz_mul a b = a * b"
  unfolding sz_mul_def by (rule mod_less)

lemma sz_add_nowrap: "a + b < SIZE_MOD \<Longrightarrow> sz_add a b = a + b"
  unfolding sz_add_def by (rule mod_less)

lemma raw_block_size_mod: "raw_block_size dbg bsize mod alignof_Block = 0"
  by (simp add: raw_block_size_def Let_def align_up_mod alignof_Block_def)

lemma raw_block_size_ge:
  assumes "sizeof_Block dbg + bsize + (if dbg then sizeof_uint32 else 0) + alignof_Block \<le> SIZE_MOD"
  shows "sizeof_Block dbg + bsize + (if dbg then sizeof_uint32 else 0) \<le> raw_block_size dbg bsize"
proof (cases dbg)
  case True
  from assms True have b: "sizeof_Block True + bsize + sizeof_uint32 + 8 \<le> SIZE_MOD"
    by (simp add: alignof_Block_def)
  hence 1: "sz_add (sizeof_Block True) bsize = sizeof_Block True + bsize"
    by (intro sz_add_nowrap) simp
  from b have 2: "sz_add (sizeof_Block True + bsize) sizeof_uint32 = sizeof_Block True + bsize + sizeof_uint32"
    by (intro sz_add_nowrap) simp
  have "raw_block_size True bsize = align_up (sizeof_Block True + bsize + sizeof_uint32)"
    by (simp add: raw_block_size_def 1 2)
  with align_up_ge[OF b] True show ?thesis by simp
next
  case False
  from assms False have b: "sizeof_Block False + bsize + 8 \<le> SIZE_MOD"
    by (simp add: alignof_Block_def)
  hence 1: "sz_add (sizeof_Block False) bsize = sizeof_Block False + bsize"
    by (intro sz_add_nowrap) simp
  have "raw_block_size False bsize = align_up (sizeof_Block False + bsize)"
    by (simp add: raw_block_size_def 1)
  with align_up_ge[OF b] False show ?thesis by simp
qed

section \<open>The constructor's loop\<close>

lemmas heap_defs =
  set_next_def set_is_free_def set_pool_id_def set_canary_front_def set_u32_def
  construct_at_def nextf_def

lemma init_block_eq:
  "init_block dbg pid start bs (h, fl) i =
     (h\<lparr>hdr := (hdr h)(ptr_add start (sz_mul i bs) :=
              \<lparr>next = fl, is_free = dbg, pool_id = (if dbg then pid else 0),
               canary_front = (if dbg then CANARY_VALUE else 0)\<rparr>),
         u32 := (if dbg then (u32 h)(rear_of (ptr_add start (sz_mul i bs)) bs := CANARY_VALUE)
                 else u32 h)\<rparr>,
      ptr_add start (sz_mul i bs))"
  by (simp add: init_block_def heap_defs Let_def nullptr_def)

lemma init_blocks_0: "init_blocks dbg pid start bs s 0 = s"
  by (simp add: init_blocks_def)

lemma init_blocks_Suc:
  "init_blocks dbg pid start bs s (Suc k) = init_block dbg pid start bs (init_blocks dbg pid start bs s k) k"
  by (simp add: init_blocks_def)

lemma slot_addr_nowrap:
  assumes "mem + bs * n < SIZE_MOD" "i < n"
  shows "ptr_add mem (sz_mul i bs) = mem + i * bs"
proof -
  have le: "i * bs \<le> n * bs" by (rule mult_le_mono1) (use assms(2) in simp)
  have e: "bs * n = n * bs" by (rule mult.commute)
  from le assms(1) have l: "mem + i * bs < SIZE_MOD" unfolding e by linarith
  hence "i * bs < SIZE_MOD" by simp
  hence "sz_mul i bs = i * bs" by (rule sz_mul_nowrap)
  thus ?thesis using l by (simp add: ptr_add_nowrap)
qed

lemma slot_end_le:
  assumes "i < (n::nat)"
  shows "mem + i * bs + bs \<le> mem + bs * n"
proof -
  have le: "Suc i * bs \<le> n * bs" using assms by (intro mult_le_mono1) simp
  have e: "bs * n = n * bs" by (rule mult.commute)
  have "Suc i * bs = i * bs + bs" by simp
  with le show ?thesis unfolding e by linarith
qed

lemma rear_of_nowrap:
  assumes "mem + bs * n < SIZE_MOD" "i < n" "sizeof_uint32 \<le> bs"
  shows "rear_of (mem + i * bs) bs = mem + i * bs + bs - sizeof_uint32"
proof -
  have l: "mem + i * bs + bs < SIZE_MOD"
    using slot_end_le[OF assms(2), of mem bs] assms(1) by simp
  hence "ptr_add (mem + i * bs) bs = mem + i * bs + bs" by (rule ptr_add_nowrap)
  moreover have "ptr_sub (mem + i * bs + bs) sizeof_uint32 = mem + i * bs + bs - sizeof_uint32"
    using l assms(3) by (intro ptr_sub_nowrap) simp_all
  ultimately show ?thesis by (simp add: rear_of_def)
qed

lemma slot_inj: "0 < bs \<Longrightarrow> (mem + i * bs = mem + j * bs) = (i = (j::nat))"
  by simp

lemma rear_inj:
  assumes "mem + bs * n < SIZE_MOD" "i < n" "j < n" "sizeof_uint32 \<le> bs" "0 < bs"
  shows "(rear_of (mem + i * bs) bs = rear_of (mem + j * bs) bs) = (i = j)"
proof -
  have c: "\<And>a b c::nat. c \<le> a \<Longrightarrow> c \<le> b \<Longrightarrow> (a - c = b - c) = (a = b)"
    by arith
  have "(mem + i * bs + bs - sizeof_uint32 = mem + j * bs + bs - sizeof_uint32)
          = (mem + i * bs + bs = mem + j * bs + bs)"
    by (rule c) (use assms(4) in simp_all)
  also have "\<dots> = (i = j)"
    using assms(5) by simp
  finally have "(mem + i * bs + bs - sizeof_uint32 = mem + j * bs + bs - sizeof_uint32) = (i = j)" .
  thus ?thesis by (simp only: rear_of_nowrap[OF assms(1,2,4)] rear_of_nowrap[OF assms(1,3,4)])
qed

lemma init_blocks_char:
  assumes bs: "0 < bs" and fit: "mem + bs * n < SIZE_MOD" and rear: "dbg \<Longrightarrow> sizeof_uint32 \<le> bs"
  shows "k \<le> n \<Longrightarrow> init_blocks dbg pid mem bs (h, nullptr) k = (h', fl) \<Longrightarrow>
     fl = (if k = 0 then nullptr else mem + (k - 1) * bs) \<and>
     (\<forall>i<k. hdr h' (mem + i * bs) =
        \<lparr>next = (if i = 0 then nullptr else mem + (i - 1) * bs), is_free = dbg,
         pool_id = (if dbg then pid else 0),
         canary_front = (if dbg then CANARY_VALUE else 0)\<rparr>) \<and>
     (\<forall>b. b \<notin> (\<lambda>i. mem + i * bs) ` {..<k} \<longrightarrow> hdr h' b = hdr h b) \<and>
     (dbg \<longrightarrow> (\<forall>i<k. u32 h' (rear_of (mem + i * bs) bs) = CANARY_VALUE)) \<and>
     (\<forall>q. q \<notin> (\<lambda>i. rear_of (mem + i * bs) bs) ` {..<k} \<longrightarrow> u32 h' q = u32 h q)"
proof (induction k arbitrary: h' fl)
  case 0
  then show ?case by (simp add: init_blocks_0)
next
  case (Suc k)
  obtain hk flk where prev: "init_blocks dbg pid mem bs (h, nullptr) k = (hk, flk)"
    by (cases "init_blocks dbg pid mem bs (h, nullptr) k")
  have kn: "k < n" "k \<le> n" using Suc.prems(1) by simp_all
  note IH = Suc.IH[OF kn(2) prev]
  define block where "block = mem + k * bs"
  have blk: "ptr_add mem (sz_mul k bs) = block"
    unfolding block_def by (rule slot_addr_nowrap[OF fit kn(1)])
  have step: "(h', fl) = init_block dbg pid mem bs (hk, flk) k"
    using Suc.prems(2) by (simp add: init_blocks_Suc prev)
  have fl: "fl = block"
    using step by (simp add: init_block_eq blk)
  have h': "h' = hk\<lparr>hdr := (hdr hk)(block :=
              \<lparr>next = flk, is_free = dbg, pool_id = (if dbg then pid else 0),
               canary_front = (if dbg then CANARY_VALUE else 0)\<rparr>),
         u32 := (if dbg then (u32 hk)(rear_of block bs := CANARY_VALUE) else u32 hk)\<rparr>"
    using step by (simp add: init_block_eq blk)
  have neq: "\<And>i. i < k \<Longrightarrow> mem + i * bs \<noteq> block"
    unfolding block_def using bs by simp
  have rneq: "\<And>i. dbg \<Longrightarrow> i < k \<Longrightarrow> rear_of (mem + i * bs) bs \<noteq> rear_of block bs"
  proof -
    fix i assume d: dbg and i: "i < k"
    have "i < n" using i kn by simp
    from rear_inj[OF fit this kn(1) rear[OF d] bs] i show "rear_of (mem + i * bs) bs \<noteq> rear_of block bs"
      unfolding block_def by simp
  qed
  have c1: "fl = (if Suc k = 0 then nullptr else mem + (Suc k - 1) * bs)"
    using fl by (simp add: block_def)
  have c2: "\<forall>i<Suc k. hdr h' (mem + i * bs) =
        \<lparr>next = (if i = 0 then nullptr else mem + (i - 1) * bs), is_free = dbg,
         pool_id = (if dbg then pid else 0),
         canary_front = (if dbg then CANARY_VALUE else 0)\<rparr>"
  proof (intro allI impI)
    fix i assume "i < Suc k"
    then consider "i = k" | "i < k" by linarith
    then show "hdr h' (mem + i * bs) =
        \<lparr>next = (if i = 0 then nullptr else mem + (i - 1) * bs), is_free = dbg,
         pool_id = (if dbg then pid else 0),
         canary_front = (if dbg then CANARY_VALUE else 0)\<rparr>"
    proof cases
      case 1
      then show ?thesis using IH by (simp add: h' block_def)
    next
      case 2
      then show ?thesis using IH neq[OF 2] by (simp add: h')
    qed
  qed
  have c3: "\<forall>b. b \<notin> (\<lambda>i. mem + i * bs) ` {..<Suc k} \<longrightarrow> hdr h' b = hdr h b"
  proof (intro allI impI)
    fix b assume b: "b \<notin> (\<lambda>i. mem + i * bs) ` {..<Suc k}"
    hence "b \<noteq> block" "b \<notin> (\<lambda>i. mem + i * bs) ` {..<k}"
      unfolding block_def by (auto simp: lessThan_Suc)
    thus "hdr h' b = hdr h b" using IH by (simp add: h')
  qed
  have c4: "dbg \<longrightarrow> (\<forall>i<Suc k. u32 h' (rear_of (mem + i * bs) bs) = CANARY_VALUE)"
  proof (intro allI impI)
    fix i assume d: dbg and "i < Suc k"
    then consider "i = k" | "i < k" by linarith
    then show "u32 h' (rear_of (mem + i * bs) bs) = CANARY_VALUE"
    proof cases
      case 1
      then show ?thesis using d by (simp add: h' block_def)
    next
      case 2
      then show ?thesis using IH d rneq[OF d 2] by (simp add: h')
    qed
  qed
  have c5: "\<forall>q. q \<notin> (\<lambda>i. rear_of (mem + i * bs) bs) ` {..<Suc k} \<longrightarrow> u32 h' q = u32 h q"
  proof (intro allI impI)
    fix q assume q: "q \<notin> (\<lambda>i. rear_of (mem + i * bs) bs) ` {..<Suc k}"
    hence "q \<noteq> rear_of block bs" "q \<notin> (\<lambda>i. rear_of (mem + i * bs) bs) ` {..<k}"
      unfolding block_def by (auto simp: lessThan_Suc)
    thus "u32 h' q = u32 h q" using IH by (simp add: h')
  qed
  from c1 c2 c3 c4 c5 show ?case by blast
qed

section \<open>Chains of blocks\<close>

lemma chain_cong:
  "(\<And>b. b \<in> set bs \<Longrightarrow> nx b = nx' b) \<Longrightarrow> chain nx p bs = chain nx' p bs"
  by (induction bs arbitrary: p) auto

lemma chain_upd: "b \<notin> set bs \<Longrightarrow> chain (nx(b := v)) p bs = chain nx p bs"
  by (rule chain_cong) auto

lemma chain_unique: "chain nx p as \<Longrightarrow> chain nx p bs \<Longrightarrow> as = bs"
proof (induction as arbitrary: p bs)
  case Nil
  then show ?case by (cases bs) auto
next
  case (Cons a as)
  then show ?case by (cases bs) auto
qed

lemma walk_chain: "walk n nx p = Some bs \<Longrightarrow> chain nx p bs \<and> length bs \<le> n"
proof (induction n arbitrary: p bs)
  case 0
  then show ?case by (auto split: if_splits)
next
  case (Suc n)
  show ?case
  proof (cases "p = nullptr")
    case True
    with Suc.prems show ?thesis by simp
  next
    case False
    with Suc.prems obtain cs where cs: "walk n nx (nx p) = Some cs" and bs: "bs = p # cs"
      by auto
    from Suc.IH[OF cs] False bs show ?thesis by simp
  qed
qed

lemma chain_walk: "chain nx p bs \<Longrightarrow> length bs \<le> n \<Longrightarrow> walk n nx p = Some bs"
proof (induction n arbitrary: p bs)
  case 0
  then show ?case by simp
next
  case (Suc n)
  then show ?case by (cases bs) auto
qed

lemma in_slots:
  "b \<in> set (slots pool) \<longleftrightarrow> (\<exists>i<block_count pool. b = memory pool + i * block_size pool)"
  by (auto simp: slots_def)

lemma distinct_slots: "0 < block_size pool \<Longrightarrow> distinct (slots pool)"
  by (simp add: slots_def distinct_map inj_on_def)

lemma length_slots: "length (slots pool) = block_count pool"
  by (simp add: slots_def)

lemma chain_slots:
  assumes "mem \<noteq> nullptr"
  shows "(\<And>i. i < k \<Longrightarrow> nx (mem + i * bs) = (if i = 0 then nullptr else mem + (i - 1) * bs)) \<Longrightarrow>
     chain nx (if k = 0 then nullptr else mem + (k - 1) * bs)
           (rev (map (\<lambda>i. mem + i * bs) [0..<k]))"
proof (induction k)
  case 0
  then show ?case by simp
next
  case (Suc k)
  have "chain nx (if k = 0 then nullptr else mem + (k - 1) * bs)
           (rev (map (\<lambda>i. mem + i * bs) [0..<k]))"
    by (rule Suc.IH) (simp add: Suc.prems)
  moreover have "nx (mem + k * bs) = (if k = 0 then nullptr else mem + (k - 1) * bs)"
    by (rule Suc.prems) simp
  moreover have "mem + k * bs \<noteq> nullptr"
    using assms by (simp add: nullptr_def)
  ultimately show ?case by simp
qed

section \<open>The constructor establishes the invariant\<close>

lemma ctor_unfold:
  assumes "bsize \<noteq> 0" "bcount \<noteq> 0" "mem \<noteq> nullptr"
    and "init_blocks dbg (if dbg then this AND 0xFFFFFFFF else 0) mem (raw_block_size dbg bsize)
           (h, nullptr) bcount = (h', fl)"
  shows "Allocator_ctor dbg this mem h bsize bcount =
     (h', \<lparr>m_Initialized = True,
           m_MemoryPool = Some \<lparr>memory = mem, free_list = fl,
                                 block_size = raw_block_size dbg bsize,
                                 block_count = bcount, payload_size = bsize\<rparr>,
           m_PoolId = (if dbg then this AND 0xFFFFFFFF else 0)\<rparr>)"
  using assms by (simp add: Allocator_ctor_def Let_def)

lemma buffer_ok_stride:
  assumes "buffer_ok dbg mem bsize bcount"
  shows "sizeof_Block dbg + (if dbg then sizeof_uint32 else 0) \<le> raw_block_size dbg bsize"
    and "0 < raw_block_size dbg bsize"
    and "dbg \<Longrightarrow> sizeof_uint32 \<le> raw_block_size dbg bsize"
proof -
  from assms
  show g: "sizeof_Block dbg + (if dbg then sizeof_uint32 else 0) \<le> raw_block_size dbg bsize"
    by (simp add: buffer_ok_def)
  from g show "0 < raw_block_size dbg bsize"
    by (simp add: sizeof_Block_def split: if_splits)
  from g show "dbg \<Longrightarrow> sizeof_uint32 \<le> raw_block_size dbg bsize"
    by (simp split: if_splits)
qed

text \<open>Sizes that do not wrap around give such a layout.\<close>

lemma buffer_ok_nowrap:
  assumes "mem \<noteq> nullptr"
    and "sizeof_Block dbg + bsize + (if dbg then sizeof_uint32 else 0) + alignof_Block \<le> SIZE_MOD"
    and "mem + raw_block_size dbg bsize * bcount < SIZE_MOD"
  shows "buffer_ok dbg mem bsize bcount"
proof -
  from raw_block_size_ge[OF assms(2)]
  have "sizeof_Block dbg + (if dbg then sizeof_uint32 else 0) \<le> raw_block_size dbg bsize"
    by (simp split: if_splits)
  with assms(1,3) show ?thesis by (simp add: buffer_ok_def)
qed

lemma ctor_pool_inv:
  assumes sz: "0 < bsize" "0 < bcount" and ok: "buffer_ok dbg mem bsize bcount"
  shows "pool_inv dbg {} (Allocator_ctor dbg this mem h bsize bcount)"
proof -
  define bs where "bs = raw_block_size dbg bsize"
  define pid where "pid = (if dbg then this AND 0xFFFFFFFF else 0)"
  obtain h' fl where loop: "init_blocks dbg pid mem bs (h, nullptr) bcount = (h', fl)"
    by (cases "init_blocks dbg pid mem bs (h, nullptr) bcount")
  define pool where "pool = \<lparr>memory = mem, free_list = fl, block_size = bs,
                              block_count = bcount, payload_size = bsize\<rparr>"
  define a where "a = \<lparr>m_Initialized = True, m_MemoryPool = Some pool, m_PoolId = pid\<rparr>"
  have mem: "mem \<noteq> nullptr" and fit: "mem + bs * bcount < SIZE_MOD"
    using ok by (simp_all add: buffer_ok_def bs_def)
  have ctor: "Allocator_ctor dbg this mem h bsize bcount = (h', a)"
    unfolding a_def pool_def bs_def pid_def
    by (rule ctor_unfold) (use sz mem loop in \<open>simp_all add: bs_def pid_def\<close>)
  note stride = buffer_ok_stride[OF ok, folded bs_def]
  note char = init_blocks_char[OF stride(2) fit stride(3) order_refl loop]
  have layout: "pool_layout dbg a"
    using mem fit stride(1) raw_block_size_mod[of dbg bsize]
    by (simp add: pool_layout_def a_def pool_def bs_def)
  have sl: "slots pool = map (\<lambda>i. mem + i * bs) [0..<bcount]"
    by (simp add: slots_def pool_def)
  have nx: "\<And>i. i < bcount \<Longrightarrow> nextf h' (mem + i * bs) = (if i = 0 then nullptr else mem + (i - 1) * bs)"
    using char by (simp add: nextf_def)
  have "chain (nextf h') (if bcount = 0 then nullptr else mem + (bcount - 1) * bs)
              (rev (map (\<lambda>i. mem + i * bs) [0..<bcount]))"
    by (rule chain_slots[OF mem]) (rule nx)
  hence ch: "chain (nextf h') fl (rev (slots pool))"
    using char sl by simp
  have fb: "free_blocks h' pool = Some (rev (slots pool))"
    unfolding free_blocks_def
    using chain_walk[OF ch, of "block_count pool"] by (simp add: length_slots pool_def)
  have dist: "distinct (rev (slots pool))"
    using distinct_slots[of pool] stride(2) by (simp add: pool_def)
  have dbgp: "dbg \<Longrightarrow> b \<in> set (slots pool) \<Longrightarrow>
          pool_id (hdr h' b) = m_PoolId a \<and>
          (is_free (hdr h' b) \<longleftrightarrow> b \<in> set (rev (slots pool))) \<and>
          canary_front (hdr h' b) = CANARY_VALUE \<and>
          u32 h' (rear_of b (block_size pool)) = CANARY_VALUE" for b
  proof -
    assume d: dbg and b: "b \<in> set (slots pool)"
    then obtain i where i: "i < bcount" "b = mem + i * bs"
      by (auto simp: sl)
    from char i d have "hdr h' b = \<lparr>next = (if i = 0 then nullptr else mem + (i - 1) * bs),
         is_free = True, pool_id = pid, canary_front = CANARY_VALUE\<rparr>"
      by simp
    moreover from char i d have "u32 h' (rear_of b bs) = CANARY_VALUE"
      by simp
    ultimately show ?thesis using b by (simp add: a_def pool_def)
  qed
  show ?thesis
    unfolding ctor pool_inv_def
    using layout fb dist dbgp by (simp add: a_def in_use_blocks_def)
qed

section \<open>The invariant, unfolded\<close>

lemma pool_inv_iff:
  "pool_inv dbg L (h, a) \<longleftrightarrow>
     pool_layout dbg a \<and>
     (\<exists>pool fs. m_MemoryPool a = Some pool \<and> free_blocks h pool = Some fs \<and>
        distinct fs \<and> set fs \<subseteq> set (slots pool) \<and>
        set fs \<inter> in_use_blocks dbg L = {} \<and>
        set fs \<union> in_use_blocks dbg L = set (slots pool) \<and>
        (dbg \<longrightarrow> (\<forall>b \<in> set (slots pool).
            pool_id (hdr h b) = m_PoolId a \<and>
            (is_free (hdr h b) \<longleftrightarrow> b \<in> set fs) \<and>
            canary_front (hdr h b) = CANARY_VALUE \<and>
            u32 h (rear_of b (block_size pool)) = CANARY_VALUE)))"
  by (auto simp: pool_inv_def split: option.splits)

lemma pool_layout_iff:
  "pool_layout dbg a \<longleftrightarrow>
     m_Initialized a \<and>
     (\<exists>pool. m_MemoryPool a = Some pool \<and> memory pool \<noteq> nullptr \<and>
        sizeof_Block dbg + (if dbg then sizeof_uint32 else 0) \<le> block_size pool \<and>
        block_size pool mod alignof_Block = 0 \<and>
        memory pool + block_size pool * block_count pool < SIZE_MOD)"
  by (auto simp: pool_layout_def split: option.splits)

lemma sizeof_Block_pos: "0 < sizeof_Block dbg"
  by (simp add: sizeof_Block_def)

text \<open>Where the slots of a pool with a proper layout lie.\<close>

lemma slot_facts:
  assumes lay: "sizeof_Block dbg + (if dbg then sizeof_uint32 else 0) \<le> block_size pool"
    and fit: "memory pool + block_size pool * block_count pool < SIZE_MOD"
    and mem: "memory pool \<noteq> nullptr"
    and b: "b \<in> set (slots pool)"
  shows "b \<noteq> nullptr" and "memory pool \<le> b"
    and "b + block_size pool \<le> memory pool + block_size pool * block_count pool"
    and "b + sizeof_Block dbg < SIZE_MOD"
    and "(b - memory pool) mod block_size pool = 0"
    and "ptr_add b (sizeof_Block dbg) = b + sizeof_Block dbg"
    and "ptr_sub (b + sizeof_Block dbg) (sizeof_Block dbg) = b"
    and "b < memory pool + block_size pool * block_count pool"
proof -
  from b obtain i where i: "i < block_count pool" "b = memory pool + i * block_size pool"
    by (auto simp: in_slots)
  show "b \<noteq> nullptr" using mem i by (simp add: nullptr_def)
  show "memory pool \<le> b" using i by simp
  show e: "b + block_size pool \<le> memory pool + block_size pool * block_count pool"
    unfolding i(2) by (rule slot_end_le[OF i(1)])
  have s: "sizeof_Block dbg \<le> block_size pool" using lay by simp
  show l: "b + sizeof_Block dbg < SIZE_MOD" using e s fit by linarith
  show "(b - memory pool) mod block_size pool = 0" using i by simp
  show "ptr_add b (sizeof_Block dbg) = b + sizeof_Block dbg" by (rule ptr_add_nowrap[OF l])
  show "ptr_sub (b + sizeof_Block dbg) (sizeof_Block dbg) = b"
    using ptr_sub_nowrap[of "sizeof_Block dbg" "b + sizeof_Block dbg"] l by simp
  show "b < memory pool + block_size pool * block_count pool"
    using e s sizeof_Block_pos[of dbg] by linarith
qed

lemma mem_end_nowrap:
  assumes "memory pool + block_size pool * block_count pool < SIZE_MOD"
  shows "ptr_add (memory pool) (sz_mul (block_size pool) (block_count pool))
           = memory pool + block_size pool * block_count pool"
proof -
  have "block_size pool * block_count pool < SIZE_MOD" using assms by simp
  hence "sz_mul (block_size pool) (block_count pool) = block_size pool * block_count pool"
    by (rule sz_mul_nowrap)
  thus ?thesis using assms by (simp add: ptr_add_nowrap)
qed

lemma free_list_length:
  assumes "distinct fs" "set fs \<subseteq> set (slots pool)"
  shows "length fs \<le> block_count pool"
proof -
  have "length fs = card (set fs)" using assms(1) by (simp add: distinct_card)
  also have "\<dots> \<le> card (set (slots pool))" by (rule card_mono) (use assms(2) in simp_all)
  also have "\<dots> \<le> length (slots pool)" by (rule card_length)
  finally show ?thesis by (simp add: length_slots)
qed

text \<open>The links of a heap after the writes of the operations.\<close>

lemma nextf_set_next: "nextf (set_next b v h) = (nextf h)(b := v)"
  by (auto simp: heap_defs)

lemma nextf_set_other [simp]:
  "nextf (set_is_free b f h) = nextf h"
  "nextf (set_pool_id b i h) = nextf h"
  "nextf (set_canary_front b c h) = nextf h"
  "nextf (set_u32 q c h) = nextf h"
  by (auto simp: heap_defs)

lemma free_blocks_free_list [simp]:
  "free_blocks h (pool\<lparr>free_list := p\<rparr>) = walk (block_count pool) (nextf h) p"
  by (simp add: free_blocks_def)

lemma slots_free_list [simp]: "slots (pool\<lparr>free_list := p\<rparr>) = slots pool"
  by (simp add: slots_def)

section \<open>\<open>allocate()\<close> on a pool that satisfies the invariant\<close>


lemma nextf_after_allocate [simp]: "nextf (after_allocate dbg b pool h) = nextf h"
  by (simp add: after_allocate_def)

lemma hdr_after_allocate:
  "hdr (after_allocate dbg b pool h) c =
     (if dbg \<and> c = b then (hdr h b)\<lparr>is_free := False, canary_front := CANARY_VALUE\<rparr> else hdr h c)"
  by (simp add: after_allocate_def heap_defs)

lemma u32_after_allocate:
  "u32 (after_allocate dbg b pool h) q =
     (if dbg \<and> q = rear_of b (block_size pool) then CANARY_VALUE else u32 h q)"
  by (simp add: after_allocate_def heap_defs)

lemma allocate_empty:
  assumes inv: "pool_inv dbg L (h, a)" and pool: "m_MemoryPool a = Some pool"
    and fb: "free_blocks h pool = Some []"
  shows "Allocator_allocate dbg (h, a) = (Returned nullptr, h, a)"
proof -
  from walk_chain[OF fb[unfolded free_blocks_def]] have "free_list pool = nullptr"
    by simp
  thus ?thesis using pool by (simp add: Allocator_allocate_def)
qed

lemma allocate_pop:
  assumes inv: "pool_inv dbg L (h, a)" and pool: "m_MemoryPool a = Some pool"
    and fb: "free_blocks h pool = Some (b # bs)"
  defines "pool' \<equiv> pool\<lparr>free_list := nextf h b\<rparr>"
  defines "a' \<equiv> a\<lparr>m_MemoryPool := Some pool'\<rparr>"
  defines "h' \<equiv> after_allocate dbg b pool h"
  shows "Allocator_allocate dbg (h, a) = (Returned (b + sizeof_Block dbg), h', a')"
    and "free_blocks h' pool' = Some bs"
    and "pool_inv dbg (insert (b + sizeof_Block dbg) L) (h', a')"
proof -
  from inv pool fb have lay: "pool_layout dbg a"
    and dist: "distinct (b # bs)" and sub: "set (b # bs) \<subseteq> set (slots pool)"
    and disj: "set (b # bs) \<inter> in_use_blocks dbg L = {}"
    and cover: "set (b # bs) \<union> in_use_blocks dbg L = set (slots pool)"
    and dbgp: "dbg \<Longrightarrow> \<forall>c \<in> set (slots pool).
            pool_id (hdr h c) = m_PoolId a \<and>
            (is_free (hdr h c) \<longleftrightarrow> c \<in> set (b # bs)) \<and>
            canary_front (hdr h c) = CANARY_VALUE \<and>
            u32 h (rear_of c (block_size pool)) = CANARY_VALUE"
    by (auto simp: pool_inv_iff)
  from lay pool have init: "m_Initialized a" and mem: "memory pool \<noteq> nullptr"
    and room: "sizeof_Block dbg + (if dbg then sizeof_uint32 else 0) \<le> block_size pool"
    and fit: "memory pool + block_size pool * block_count pool < SIZE_MOD"
    by (auto simp: pool_layout_iff)
  from walk_chain[OF fb[unfolded free_blocks_def]]
  have head: "free_list pool = b" and bnz: "b \<noteq> nullptr"
    and ch: "chain (nextf h) (nextf h b) bs" and len: "length (b # bs) \<le> block_count pool"
    by simp_all
  have bslot: "b \<in> set (slots pool)" using sub by simp
  note sf = slot_facts[OF room fit mem bslot]
  have free_b: "dbg \<Longrightarrow> is_free (hdr h b)" using dbgp bslot by simp
  show "Allocator_allocate dbg (h, a) = (Returned (b + sizeof_Block dbg), h', a')"
    using init pool head bnz free_b sf(6)
    by (cases dbg)
       (simp_all add: Allocator_allocate_def Let_def nextf_def a'_def pool'_def h'_def
          after_allocate_def)
  show fb': "free_blocks h' pool' = Some bs"
    unfolding pool'_def h'_def using chain_walk[OF ch, of "block_count pool"] len by simp
  have lay': "pool_layout dbg a'"
    using lay pool by (simp add: pool_layout_iff a'_def pool'_def)
  have iu: "in_use_blocks dbg (insert (b + sizeof_Block dbg) L) = insert b (in_use_blocks dbg L)"
    by (simp add: in_use_blocks_def)
  have s1: "set bs \<inter> insert b (in_use_blocks dbg L) = {}"
    using dist disj by auto
  have s2: "set bs \<union> insert b (in_use_blocks dbg L) = set (slots pool)"
    using cover by auto
  have d': "dbg \<Longrightarrow> c \<in> set (slots pool) \<Longrightarrow>
            pool_id (hdr h' c) = m_PoolId a' \<and>
            (is_free (hdr h' c) \<longleftrightarrow> c \<in> set bs) \<and>
            canary_front (hdr h' c) = CANARY_VALUE \<and>
            u32 h' (rear_of c (block_size pool)) = CANARY_VALUE" for c
    using dbgp dist
    by (auto simp: h'_def a'_def hdr_after_allocate u32_after_allocate)
  show "pool_inv dbg (insert (b + sizeof_Block dbg) L) (h', a')"
    unfolding pool_inv_iff iu
    using lay' fb' dist sub s1 s2 d'
    by (simp add: a'_def pool'_def)
qed

section \<open>\<open>free(ptr)\<close> on a pool that satisfies the invariant\<close>

lemma nextf_after_free: "nextf (after_free dbg b pool h) = (nextf h)(b := free_list pool)"
  by (simp add: after_free_def nextf_set_next)

lemma hdr_after_free:
  "hdr (after_free dbg b pool h) c =
     (if c = b then (hdr h b)\<lparr>next := free_list pool, is_free := (dbg \<or> is_free (hdr h b))\<rparr>
      else hdr h c)"
  by (simp add: after_free_def heap_defs)

lemma u32_after_free: "u32 (after_free dbg b pool h) = u32 h"
  by (simp add: after_free_def heap_defs)

text \<open>What \<open>free(ptr)\<close> does once its checks have passed.\<close>

lemma free_checks_passed:
  assumes "ptr \<noteq> nullptr" "m_Initialized a" "m_MemoryPool a = Some pool"
    and "ptr_sub ptr (sizeof_Block dbg) = b"
    and "ptr_add (memory pool) (sz_mul (block_size pool) (block_count pool)) = e"
    and "memory pool \<le> b" "b < e" "(b - memory pool) mod block_size pool = 0"
    and "dbg \<Longrightarrow> pool_id (hdr h b) = m_PoolId a"
    and "dbg \<Longrightarrow> \<not> is_free (hdr h b)"
    and "dbg \<Longrightarrow> canary_front (hdr h b) = CANARY_VALUE"
    and "dbg \<Longrightarrow> u32 h (rear_of b (block_size pool)) = CANARY_VALUE"
  shows "Allocator_free dbg ptr (h, a) =
           (Returned (), after_free dbg b pool h, a\<lparr>m_MemoryPool := Some (pool\<lparr>free_list := b\<rparr>)\<rparr>)"
  using assms
  by (cases dbg) (simp_all add: Allocator_free_def Let_def after_free_def)

lemma in_use_payload:
  assumes room: "sizeof_Block dbg + (if dbg then sizeof_uint32 else 0) \<le> block_size pool"
    and fit: "memory pool + block_size pool * block_count pool < SIZE_MOD"
    and mem: "memory pool \<noteq> nullptr"
    and sub: "in_use_blocks dbg L \<subseteq> set (slots pool)"
    and p: "p \<in> L"
  shows "p - sizeof_Block dbg \<in> set (slots pool)" and "p = (p - sizeof_Block dbg) + sizeof_Block dbg"
    and "p \<noteq> nullptr"
proof -
  show s: "p - sizeof_Block dbg \<in> set (slots pool)"
    using sub p by (auto simp: in_use_blocks_def)
  from slot_facts(1)[OF room fit mem s] have "p - sizeof_Block dbg \<noteq> 0"
    by (simp add: nullptr_def)
  thus "p = (p - sizeof_Block dbg) + sizeof_Block dbg" and "p \<noteq> nullptr"
    by (simp_all add: nullptr_def)
qed

lemma free_push:
  assumes inv: "pool_inv dbg L (h, a)" and pool: "m_MemoryPool a = Some pool"
    and fb: "free_blocks h pool = Some fs" and p: "p \<in> L"
  defines "b \<equiv> p - sizeof_Block dbg"
  defines "pool' \<equiv> pool\<lparr>free_list := b\<rparr>"
  defines "a' \<equiv> a\<lparr>m_MemoryPool := Some pool'\<rparr>"
  defines "h' \<equiv> after_free dbg b pool h"
  shows "Allocator_free dbg p (h, a) = (Returned (), h', a')"
    and "free_blocks h' pool' = Some (b # fs)"
    and "pool_inv dbg (L - {p}) (h', a')"
    and "p = b + sizeof_Block dbg"
proof -
  from inv pool fb have lay: "pool_layout dbg a"
    and dist: "distinct fs" and sub: "set fs \<subseteq> set (slots pool)"
    and disj: "set fs \<inter> in_use_blocks dbg L = {}"
    and cover: "set fs \<union> in_use_blocks dbg L = set (slots pool)"
    and dbgp: "dbg \<Longrightarrow> \<forall>c \<in> set (slots pool).
            pool_id (hdr h c) = m_PoolId a \<and>
            (is_free (hdr h c) \<longleftrightarrow> c \<in> set fs) \<and>
            canary_front (hdr h c) = CANARY_VALUE \<and>
            u32 h (rear_of c (block_size pool)) = CANARY_VALUE"
    by (auto simp: pool_inv_iff)
  from lay pool have init: "m_Initialized a" and mem: "memory pool \<noteq> nullptr"
    and room: "sizeof_Block dbg + (if dbg then sizeof_uint32 else 0) \<le> block_size pool"
    and fit: "memory pool + block_size pool * block_count pool < SIZE_MOD"
    by (auto simp: pool_layout_iff)
  have iu: "in_use_blocks dbg L \<subseteq> set (slots pool)" using cover by auto
  note pf = in_use_payload[OF room fit mem iu]
  have bslot: "b \<in> set (slots pool)" and pb: "p = b + sizeof_Block dbg" and pnz: "p \<noteq> nullptr"
    unfolding b_def using pf[OF p] by simp_all
  show "p = b + sizeof_Block dbg" by (rule pb)
  have bin: "b \<in> in_use_blocks dbg L" using p by (auto simp: in_use_blocks_def b_def)
  hence bfs: "b \<notin> set fs" using disj by auto
  note sf = slot_facts[OF room fit mem bslot]
  have dbgb: "dbg \<Longrightarrow> pool_id (hdr h b) = m_PoolId a \<and> \<not> is_free (hdr h b) \<and>
            canary_front (hdr h b) = CANARY_VALUE \<and>
            u32 h (rear_of b (block_size pool)) = CANARY_VALUE"
    using dbgp bslot bfs by simp
  show "Allocator_free dbg p (h, a) = (Returned (), h', a')"
    unfolding h'_def a'_def pool'_def
    by (rule free_checks_passed[OF pnz init pool _ mem_end_nowrap[OF fit] sf(2) sf(8) sf(5)])
       (use sf(7) pb dbgb in simp_all)
  from walk_chain[OF fb[unfolded free_blocks_def]]
  have ch: "chain (nextf h) (free_list pool) fs" by simp
  have "chain ((nextf h)(b := free_list pool)) b (b # fs)"
    using ch bfs sf(1) by (simp add: chain_upd)
  moreover have "length (b # fs) \<le> block_count pool"
    by (rule free_list_length) (use dist bfs sub bslot in simp_all)
  ultimately show fb': "free_blocks h' pool' = Some (b # fs)"
    unfolding pool'_def h'_def using chain_walk[of "(nextf h)(b := free_list pool)" b "b # fs" "block_count pool"]
    by (simp add: nextf_after_free)
  have lay': "pool_layout dbg a'"
    using lay pool by (simp add: pool_layout_iff a'_def pool'_def)
  have inj: "q \<in> L \<Longrightarrow> q - sizeof_Block dbg = b \<Longrightarrow> q = p" for q
    using pf(2)[of q] pb by simp
  have iu': "in_use_blocks dbg (L - {p}) = in_use_blocks dbg L - {b}"
    using inj by (auto simp: in_use_blocks_def b_def)
  have s1: "set (b # fs) \<inter> (in_use_blocks dbg L - {b}) = {}"
    using disj by auto
  have s2: "set (b # fs) \<union> (in_use_blocks dbg L - {b}) = set (slots pool)"
    using cover bin by auto
  have d': "dbg \<Longrightarrow> c \<in> set (slots pool) \<Longrightarrow>
            pool_id (hdr h' c) = m_PoolId a' \<and>
            (is_free (hdr h' c) \<longleftrightarrow> c \<in> set (b # fs)) \<and>
            canary_front (hdr h' c) = CANARY_VALUE \<and>
            u32 h' (rear_of c (block_size pool)) = CANARY_VALUE" for c
    using dbgp
    by (auto simp: h'_def a'_def hdr_after_free u32_after_free)
  show "pool_inv dbg (L - {p}) (h', a')"
    unfolding pool_inv_iff iu'
    using lay' fb' dist bfs sub bslot s1 s2 d'
    by (simp add: a'_def pool'_def)
qed

section \<open>Consecutive allocations\<close>

lemma allocate_n_inv:
  "pool_inv dbg L (h, a) \<Longrightarrow> m_MemoryPool a = Some pool \<Longrightarrow> free_blocks h pool = Some fs \<Longrightarrow>
     fst (allocate_n dbg (Suc (length fs)) (h, a))
       = map (\<lambda>b. Returned (b + sizeof_Block dbg)) fs @ [Returned nullptr]"
proof (induction fs arbitrary: L h a pool)
  case Nil
  from allocate_empty[OF Nil.prems] show ?case by simp
next
  case (Cons b bs)
  note pop = allocate_pop[OF Cons.prems]
  have "fst (allocate_n dbg (Suc (length bs))
               (after_allocate dbg b pool h, a\<lparr>m_MemoryPool := Some (pool\<lparr>free_list := nextf h b\<rparr>)\<rparr>))
          = map (\<lambda>b. Returned (b + sizeof_Block dbg)) bs @ [Returned nullptr]"
    by (rule Cons.IH[OF pop(3) _ pop(2)]) simp
  thus ?case
    using pop(1) by (simp add: case_prod_unfold)
qed

lemma ctor_free_blocks:
  assumes sz: "0 < bsize" "0 < bcount" and ok: "buffer_ok dbg mem bsize bcount"
  shows "\<exists>h' a pool fs. Allocator_ctor dbg this mem h bsize bcount = (h', a) \<and>
           pool_inv dbg {} (h', a) \<and> m_Initialized a \<and> m_MemoryPool a = Some pool \<and>
           memory pool = mem \<and> block_size pool = raw_block_size dbg bsize \<and>
           block_count pool = bcount \<and> payload_size pool = bsize \<and>
           free_blocks h' pool = Some fs \<and> distinct fs \<and> set fs = set (slots pool) \<and>
           length fs = bcount"
proof -
  obtain h' a where c: "Allocator_ctor dbg this mem h bsize bcount = (h', a)"
    by (cases "Allocator_ctor dbg this mem h bsize bcount")
  from ok have mem: "mem \<noteq> nullptr" by (simp add: buffer_ok_def)
  have inv: "pool_inv dbg {} (h', a)"
    using ctor_pool_inv[OF sz ok, of this h] c by simp
  then obtain pool fs where p: "m_MemoryPool a = Some pool" "free_blocks h' pool = Some fs"
    "distinct fs" "set fs \<union> in_use_blocks dbg {} = set (slots pool)" and lay: "pool_layout dbg a"
    by (auto simp: pool_inv_iff)
  have rec: "memory pool = mem \<and> block_size pool = raw_block_size dbg bsize \<and>
           block_count pool = bcount \<and> payload_size pool = bsize"
    using c p(1) sz mem by (auto simp: Allocator_ctor_def Let_def split: prod.splits)
  have set: "set fs = set (slots pool)" using p(4) by (simp add: in_use_blocks_def)
  have "0 < block_size pool" using lay p(1) sizeof_Block_pos[of dbg] by (auto simp: pool_layout_iff)
  hence "distinct (slots pool)" by (rule distinct_slots)
  hence "card (set (slots pool)) = block_count pool"
    by (simp add: distinct_card length_slots)
  hence len: "length fs = bcount"
    using p(3) set rec by (simp add: distinct_card[symmetric])
  from lay have "m_Initialized a" by (simp add: pool_layout_iff)
  with c inv p rec set len show ?thesis by blast
qed

section \<open>Evaluation on concrete pools\<close>

lemmas arith_defs =
  SIZE_MOD_def sz_add_def sz_sub_def sz_mul_def sz_not_def ptr_add_def ptr_sub_def
  sizeof_Block_def alignof_Block_def sizeof_uint32_def alignof_ptr_def nullptr_def
  CANARY_VALUE_def

lemma raw_block_size_16: "raw_block_size False 16 = 24" "raw_block_size True 16 = 48"
  by (simp_all add: raw_block_size_def align_up_eq arith_defs)

lemma buffer_ok_ex: "buffer_ok False 4096 16 3" "buffer_ok True 4096 16 3"
  "buffer_ok False 4096 16 1" "buffer_ok True 4096 16 1"
  by (simp_all add: buffer_ok_def raw_block_size_16 arith_defs)

section \<open>Claims about one pool\<close>

text \<open>
  C1. For every pool constructed with a payload size and a count greater than zero whose
  construction succeeds (the answer of the memory source holds the pool,
  \<open>buffer_ok\<close>), \<open>count + 1\<close> consecutive calls of
  \<open>allocate()\<close> return \<open>count\<close> non-null, pairwise different pointers and then, at call
  \<open>count + 1\<close>, \<open>nullptr\<close>.
\<close>

theorem allocate_count_then_exhausted:
  assumes "0 < bsize" and "0 < bcount" and "buffer_ok dbg mem bsize bcount"
  shows "\<exists>ps. fst (allocate_n dbg (Suc bcount) (Allocator_ctor dbg this mem h bsize bcount))
                = map Returned ps @ [Returned nullptr] \<and>
              length ps = bcount \<and> nullptr \<notin> set ps \<and> distinct ps"
proof -
  from ctor_free_blocks[OF assms, of this h]
  obtain h' a pool fs where c: "Allocator_ctor dbg this mem h bsize bcount = (h', a)"
    and inv: "pool_inv dbg {} (h', a)" and pool: "m_MemoryPool a = Some pool"
    and fb: "free_blocks h' pool = Some fs" and dist: "distinct fs" and len: "length fs = bcount"
    by blast
  define ps where "ps = map (\<lambda>b. b + sizeof_Block dbg) fs"
  have "fst (allocate_n dbg (Suc (length fs)) (h', a)) = map Returned ps @ [Returned nullptr]"
    unfolding ps_def using allocate_n_inv[OF inv pool fb] by (simp add: comp_def)
  moreover have "length ps = bcount" by (simp add: ps_def len)
  moreover have "nullptr \<notin> set ps"
    using sizeof_Block_pos[of dbg] by (auto simp: ps_def nullptr_def)
  moreover have "distinct ps"
    using dist by (simp add: ps_def distinct_map inj_on_def)
  ultimately show ?thesis unfolding c len by blast
qed

theorem allocate_count_then_exhausted_witness:
  "0 < (16::nat) \<and> 0 < (3::nat) \<and> buffer_ok True 4096 16 3 \<and>
   (\<exists>ps. fst (allocate_n True (Suc 3) (Allocator_ctor True 8192 4096 heap0 16 3))
            = map Returned ps @ [Returned nullptr] \<and>
          length ps = 3 \<and> nullptr \<notin> set ps \<and> distinct ps)"
  using allocate_count_then_exhausted[of 16 3 True 4096 8192 heap0] buffer_ok_ex(2)
  by simp

section \<open>One step of \<open>allocate()\<close> and of \<open>free(ptr)\<close>\<close>

lemma allocate_preserves:
  assumes "pool_inv dbg L s"
  shows "\<exists>p s'. Allocator_allocate dbg s = (Returned p, s') \<and>
           pool_inv dbg (if p = nullptr then L else insert p L) s'"
proof -
  obtain h a where s: "s = (h, a)" by (cases s)
  from assms s obtain pool fs where pool: "m_MemoryPool a = Some pool"
    and fb: "free_blocks h pool = Some fs"
    by (auto simp: pool_inv_iff)
  note inv = assms[unfolded s]
  show ?thesis
  proof (cases fs)
    case Nil
    from allocate_empty[OF inv pool fb[unfolded Nil]] inv show ?thesis
      unfolding s by simp
  next
    case (Cons b bs)
    note pop = allocate_pop[OF inv pool fb[unfolded Cons]]
    have "b + sizeof_Block dbg \<noteq> nullptr"
      using sizeof_Block_pos[of dbg] by (simp add: nullptr_def)
    with pop(1,3) show ?thesis unfolding s by auto
  qed
qed

lemma free_preserves:
  assumes "pool_inv dbg L s" and "p \<in> L"
  shows "\<exists>s'. Allocator_free dbg p s = (Returned (), s') \<and> pool_inv dbg (L - {p}) s'"
proof -
  obtain h a where s: "s = (h, a)" by (cases s)
  from assms s obtain pool fs where pool: "m_MemoryPool a = Some pool"
    and fb: "free_blocks h pool = Some fs"
    by (auto simp: pool_inv_iff)
  from free_push[OF assms(1)[unfolded s] pool fb assms(2)] show ?thesis
    unfolding s by blast
qed

lemma free_then_allocate:
  assumes "pool_inv dbg L s" and "p \<in> L"
  shows "\<exists>s'. Allocator_free dbg p s = (Returned (), s') \<and>
           fst (Allocator_allocate dbg s') = Returned p"
proof -
  obtain h a where s: "s = (h, a)" by (cases s)
  from assms s obtain pool fs where pool: "m_MemoryPool a = Some pool"
    and fb: "free_blocks h pool = Some fs"
    by (auto simp: pool_inv_iff)
  note push = free_push[OF assms(1)[unfolded s] pool fb assms(2)]
  have "fst (Allocator_allocate dbg
          (after_free dbg (p - sizeof_Block dbg) pool h,
           a\<lparr>m_MemoryPool := Some (pool\<lparr>free_list := p - sizeof_Block dbg\<rparr>)\<rparr>))
        = Returned (p - sizeof_Block dbg + sizeof_Block dbg)"
    using allocate_pop(1)[OF push(3) _ push(2)] by simp
  with push(1,4) show ?thesis unfolding s by simp
qed

lemma free_marked_free:
  assumes inv: "pool_inv True L (h, a)" and pool: "m_MemoryPool a = Some pool"
    and b: "b \<in> set (slots pool)" and fr: "is_free (hdr h b)"
  shows "Allocator_free True (b + sizeof_Block True) (h, a) = (Aborted DoubleFree, h, a)"
proof -
  from inv pool have lay: "pool_layout True a"
    and dbgp: "\<forall>c \<in> set (slots pool). pool_id (hdr h c) = m_PoolId a"
    by (auto simp: pool_inv_iff)
  from lay pool have init: "m_Initialized a" and mem: "memory pool \<noteq> nullptr"
    and room: "sizeof_Block True + (if True then sizeof_uint32 else 0) \<le> block_size pool"
    and fit: "memory pool + block_size pool * block_count pool < SIZE_MOD"
    by (auto simp: pool_layout_iff)
  note sf = slot_facts[OF room fit mem b]
  have nz: "b + sizeof_Block True \<noteq> nullptr"
    using sizeof_Block_pos[of True] by (simp add: nullptr_def)
  show ?thesis
    using nz init pool sf(2,5,7,8) mem_end_nowrap[OF fit] dbgp b fr
    by (simp add: Allocator_free_def Let_def)
qed

section \<open>The example pool\<close>

lemma ex_pool_eq:
  "ex_pool =
     (heap0\<lparr>hdr := (hdr heap0)(4096 := \<lparr>next = 0, is_free = True, pool_id = 8192,
                                        canary_front = CANARY_VALUE\<rparr>),
            u32 := (u32 heap0)(4140 := CANARY_VALUE)\<rparr>,
      \<lparr>m_Initialized = True,
       m_MemoryPool = Some \<lparr>memory = 4096, free_list = 4096, block_size = 48,
                             block_count = 1, payload_size = 16\<rparr>,
       m_PoolId = 8192\<rparr>)"
  by (simp add: ex_pool_def Allocator_ctor_def Let_def raw_block_size_16 init_blocks_def
      init_block_eq rear_of_def SIZE_MOD_def sz_mul_def ptr_add_def ptr_sub_def
      sizeof_uint32_def nullptr_def)

lemma ex_pool_allocate: "fst (Allocator_allocate True ex_pool) = Returned 4120"
  unfolding ex_pool_eq
  by (simp add: Allocator_allocate_def Let_def heap_defs rear_of_def SIZE_MOD_def sz_mul_def
      ptr_add_def ptr_sub_def sizeof_uint32_def nullptr_def sizeof_Block_def)

lemma ex_pool_inv: "pool_inv True {} ex_pool"
  unfolding ex_pool_def by (rule ctor_pool_inv[OF _ _ buffer_ok_ex(4)]) simp_all

lemma ex_pool_busy_inv: "pool_inv True {4120} ex_pool_busy"
  using allocate_preserves[OF ex_pool_inv] ex_pool_allocate
  by (auto simp: ex_pool_busy_def nullptr_def)

text \<open>
  C3. On a pool that satisfies the invariant, \<open>free(p)\<close> of a pointer \<open>p\<close> in use returns,
  and the next \<open>allocate()\<close> returns exactly \<open>p\<close>. In particular, on a new pool with
  \<open>count = 1\<close>: \<open>p1 = allocate(); free(p1); p2 = allocate()\<close> gives \<open>p1 == p2\<close>.
\<close>

theorem free_then_allocate_same:
  "(pool_inv dbg L s \<and> p \<in> L \<longrightarrow>
      (\<exists>s'. Allocator_free dbg p s = (Returned (), s') \<and>
            fst (Allocator_allocate dbg s') = Returned p)) \<and>
   (0 < bsize \<and> buffer_ok dbg mem bsize 1 \<longrightarrow>
      (\<exists>p1 s1 s2. Allocator_allocate dbg (Allocator_ctor dbg this mem h bsize 1) = (Returned p1, s1) \<and>
            p1 \<noteq> nullptr \<and>
            Allocator_free dbg p1 s1 = (Returned (), s2) \<and>
            fst (Allocator_allocate dbg s2) = Returned p1))"
proof (intro conjI impI)
  assume "pool_inv dbg L s \<and> p \<in> L"
  thus "\<exists>s'. Allocator_free dbg p s = (Returned (), s') \<and>
            fst (Allocator_allocate dbg s') = Returned p"
    using free_then_allocate by blast
next
  assume a: "0 < bsize \<and> buffer_ok dbg mem bsize 1"
  define s0 where "s0 = Allocator_ctor dbg this mem h bsize 1"
  from a ctor_free_blocks[of bsize 1 dbg mem this h]
  obtain h' a' pool fs where c: "s0 = (h', a')" and inv: "pool_inv dbg {} (h', a')"
    and pool: "m_MemoryPool a' = Some pool" and fb: "free_blocks h' pool = Some fs"
    and len: "length fs = 1"
    unfolding s0_def by auto
  from len obtain b where fs: "fs = [b]" by (cases fs) auto
  note pop = allocate_pop[OF inv pool fb[unfolded fs]]
  have nz: "b + sizeof_Block dbg \<noteq> nullptr"
    using sizeof_Block_pos[of dbg] by (simp add: nullptr_def)
  from free_then_allocate[OF pop(3), of "b + sizeof_Block dbg"]
  obtain s2 where "Allocator_free dbg (b + sizeof_Block dbg)
        (after_allocate dbg b pool h', a'\<lparr>m_MemoryPool := Some (pool\<lparr>free_list := nextf h' b\<rparr>)\<rparr>)
        = (Returned (), s2)"
    and "fst (Allocator_allocate dbg s2) = Returned (b + sizeof_Block dbg)"
    by auto
  with pop(1) nz show "\<exists>p1 s1 s2. Allocator_allocate dbg (Allocator_ctor dbg this mem h bsize 1) = (Returned p1, s1) \<and>
            p1 \<noteq> nullptr \<and>
            Allocator_free dbg p1 s1 = (Returned (), s2) \<and>
            fst (Allocator_allocate dbg s2) = Returned p1"
    unfolding s0_def[symmetric] c by blast
qed

theorem free_then_allocate_same_witness:
  "pool_inv True {4120} ex_pool_busy \<and> 4120 \<in> {4120::nat} \<and>
   (\<exists>s'. Allocator_free True 4120 ex_pool_busy = (Returned (), s') \<and>
         fst (Allocator_allocate True s') = Returned 4120) \<and>
   0 < (16::nat) \<and> buffer_ok True 4096 16 1 \<and>
   (\<exists>p1 s1 s2. Allocator_allocate True (Allocator_ctor True 8192 4096 heap0 16 1) = (Returned p1, s1) \<and>
         p1 \<noteq> nullptr \<and>
         Allocator_free True p1 s1 = (Returned (), s2) \<and>
         fst (Allocator_allocate True s2) = Returned p1)"
  using free_then_allocate_same[of True "{4120}" ex_pool_busy 4120 16 4096 8192 heap0]
    ex_pool_busy_inv buffer_ok_ex(4)
  by simp

text \<open>
  C4. The invariant \<open>pool_inv\<close> (the free list is a null-terminated chain without
  repetition through slots of the pool; the free blocks and the blocks in use are
  disjoint and together are all \<open>count\<close> slots) holds after a successful construction,
  with no pointer in use, and is preserved by every \<open>allocate()\<close>, whose non-null result
  joins the pointers in use, and by every \<open>free\<close> of a pointer in use, which leaves them;
  neither call aborts.
\<close>

theorem free_list_invariant:
  "(0 < bsize \<and> 0 < bcount \<and> buffer_ok dbg mem bsize bcount \<longrightarrow>
      pool_inv dbg {} (Allocator_ctor dbg this mem h bsize bcount)) \<and>
   (pool_inv dbg L s \<longrightarrow>
      (\<exists>p s'. Allocator_allocate dbg s = (Returned p, s') \<and>
             pool_inv dbg (if p = nullptr then L else insert p L) s')) \<and>
   (pool_inv dbg L s \<and> q \<in> L \<longrightarrow>
      (\<exists>s'. Allocator_free dbg q s = (Returned (), s') \<and> pool_inv dbg (L - {q}) s'))"
  using ctor_pool_inv allocate_preserves free_preserves by blast

theorem free_list_invariant_witness:
  "0 < (16::nat) \<and> 0 < (3::nat) \<and> buffer_ok True 4096 16 3 \<and>
   pool_inv True {} (Allocator_ctor True 8192 4096 heap0 16 3) \<and>
   pool_inv True {4120} ex_pool_busy \<and>
   (\<exists>p s'. Allocator_allocate True ex_pool_busy = (Returned p, s') \<and>
          pool_inv True (if p = nullptr then {4120} else insert p {4120}) s') \<and>
   4120 \<in> {4120::nat} \<and>
   (\<exists>s'. Allocator_free True 4120 ex_pool_busy = (Returned (), s') \<and>
         pool_inv True ({4120} - {4120}) s')"
  using free_list_invariant[of 16 3 True 4096 8192 heap0 "{4120}" ex_pool_busy 4120]
    ex_pool_busy_inv buffer_ok_ex(2)
  by simp

text \<open>
  C7. In a \<open>DEBUG\<close> build, \<open>free\<close> of the payload pointer of a slot whose block is marked
  free aborts with the double-free diagnostic and leaves the memory and the allocator,
  so the free list too, as they were. In particular a second \<open>free(p)\<close> after the
  \<open>free(p)\<close> of a pointer in use does so.
\<close>

theorem double_free_aborts:
  "(pool_inv True L (h, a) \<and> m_MemoryPool a = Some pool \<and> b \<in> set (slots pool) \<and>
      is_free (hdr h b) \<longrightarrow>
      Allocator_free True (b + sizeof_Block True) (h, a) = (Aborted DoubleFree, h, a)) \<and>
   (pool_inv True L s \<and> p \<in> L \<longrightarrow>
      (\<exists>s'. Allocator_free True p s = (Returned (), s') \<and>
            Allocator_free True p s' = (Aborted DoubleFree, s')))"
proof (intro conjI impI)
  assume "pool_inv True L (h, a) \<and> m_MemoryPool a = Some pool \<and> b \<in> set (slots pool) \<and>
      is_free (hdr h b)"
  thus "Allocator_free True (b + sizeof_Block True) (h, a) = (Aborted DoubleFree, h, a)"
    using free_marked_free by blast
next
  assume a: "pool_inv True L s \<and> p \<in> L"
  obtain h0 a0 where s: "s = (h0, a0)" by (cases s)
  from a s obtain pool0 fs where pool: "m_MemoryPool a0 = Some pool0"
    and fb: "free_blocks h0 pool0 = Some fs"
    by (auto simp: pool_inv_iff)
  from a s have inv: "pool_inv True L (h0, a0)" and p: "p \<in> L" by simp_all
  note push = free_push[OF inv pool fb p]
  define c where "c = p - sizeof_Block True"
  define h1 where "h1 = after_free True c pool0 h0"
  define a1 where "a1 = a0\<lparr>m_MemoryPool := Some (pool0\<lparr>free_list := c\<rparr>)\<rparr>"
  note push' = push[folded c_def, folded h1_def a1_def]
  have pool1: "m_MemoryPool a1 = Some (pool0\<lparr>free_list := c\<rparr>)" by (simp add: a1_def)
  from push'(3) pool1 push'(2) have cs: "c \<in> set (slots (pool0\<lparr>free_list := c\<rparr>))"
    and "\<forall>x \<in> set (slots (pool0\<lparr>free_list := c\<rparr>)). is_free (hdr h1 x) \<longleftrightarrow> x \<in> set (c # fs)"
    by (auto simp: pool_inv_iff)
  hence fr: "is_free (hdr h1 c)" by simp
  from free_marked_free[OF push'(3) pool1 cs fr] push'(1,4)
  show "\<exists>s'. Allocator_free True p s = (Returned (), s') \<and>
            Allocator_free True p s' = (Aborted DoubleFree, s')"
    unfolding s by simp
qed

theorem double_free_aborts_witness:
  "pool_inv True {} ex_pool \<and>
   m_MemoryPool (snd ex_pool) = Some \<lparr>memory = 4096, free_list = 4096, block_size = 48,
                             block_count = 1, payload_size = 16\<rparr> \<and>
   4096 \<in> set (slots \<lparr>memory = 4096, free_list = 4096, block_size = 48,
                             block_count = 1, payload_size = 16\<rparr>) \<and>
   is_free (hdr (fst ex_pool) 4096) \<and>
   Allocator_free True (4096 + sizeof_Block True) (fst ex_pool, snd ex_pool)
     = (Aborted DoubleFree, fst ex_pool, snd ex_pool) \<and>
   pool_inv True {4120} ex_pool_busy \<and> 4120 \<in> {4120::nat} \<and>
   (\<exists>s'. Allocator_free True 4120 ex_pool_busy = (Returned (), s') \<and>
         Allocator_free True 4120 s' = (Aborted DoubleFree, s'))"
proof -
  have 1: "pool_inv True {} (fst ex_pool, snd ex_pool)" using ex_pool_inv by simp
  have 2: "m_MemoryPool (snd ex_pool) = Some \<lparr>memory = 4096, free_list = 4096, block_size = 48,
                             block_count = 1, payload_size = 16\<rparr>"
    by (simp add: ex_pool_eq)
  have 3: "4096 \<in> set (slots \<lparr>memory = 4096, free_list = 4096, block_size = 48,
                             block_count = 1, payload_size = 16\<rparr>)"
    by (simp add: slots_def)
  have 4: "is_free (hdr (fst ex_pool) 4096)"
    by (simp add: ex_pool_eq)
  show ?thesis
    using double_free_aborts[of "{}" "fst ex_pool" "snd ex_pool"
        "\<lparr>memory = 4096, free_list = 4096, block_size = 48, block_count = 1, payload_size = 16\<rparr>"
        4096 ex_pool 4120]
      double_free_aborts[of "{4120}" "fst ex_pool" "snd ex_pool"
        "\<lparr>memory = 4096, free_list = 4096, block_size = 48, block_count = 1, payload_size = 16\<rparr>"
        4096 ex_pool_busy 4120]
      1 2 3 4 ex_pool_busy_inv ex_pool_inv
    by simp
qed

text \<open>
  C9. On a pool that satisfies the invariant and whose buffer, as the memory source
  returned it, is aligned for pointers, the stride is a multiple of the alignment of
  the header and every pointer that \<open>allocate()\<close> returns is aligned for pointers.
\<close>

theorem allocate_pointer_aligned:
  assumes "pool_inv dbg L (h, a)" and "m_MemoryPool a = Some pool"
    and "memory pool mod alignof_ptr = 0"
    and "Allocator_allocate dbg (h, a) = (Returned p, s')"
  shows "block_size pool mod alignof_Block = 0 \<and> p mod alignof_ptr = 0"
proof -
  from assms(1,2) obtain fs where fb: "free_blocks h pool = Some fs"
    and sub: "set fs \<subseteq> set (slots pool)" and lay: "pool_layout dbg a"
    by (auto simp: pool_inv_iff)
  from lay assms(2) have bs: "block_size pool mod alignof_Block = 0"
    by (auto simp: pool_layout_iff)
  have "p mod alignof_ptr = 0"
  proof (cases fs)
    case Nil
    from allocate_empty[OF assms(1,2) fb[unfolded Nil]] assms(4) show ?thesis
      by (simp add: nullptr_def)
  next
    case (Cons b bs')
    from allocate_pop(1)[OF assms(1,2) fb[unfolded Cons]] assms(4)
    have p: "p = b + sizeof_Block dbg" by simp
    from sub Cons obtain i where b: "b = memory pool + i * block_size pool"
      by (auto simp: in_slots)
    have "8 dvd memory pool" using assms(3) by (simp add: alignof_ptr_def dvd_eq_mod_eq_0)
    moreover have "8 dvd block_size pool" using bs by (simp add: alignof_Block_def dvd_eq_mod_eq_0)
    moreover have "8 dvd sizeof_Block dbg" by (simp add: sizeof_Block_def)
    ultimately have "8 dvd p" unfolding p b by (intro dvd_add dvd_mult) 
    thus ?thesis by (simp add: alignof_ptr_def dvd_eq_mod_eq_0)
  qed
  with bs show ?thesis by simp
qed

theorem allocate_pointer_aligned_witness:
  "pool_inv True {} (fst ex_pool, snd ex_pool) \<and>
   m_MemoryPool (snd ex_pool) = Some \<lparr>memory = 4096, free_list = 4096, block_size = 48,
                             block_count = 1, payload_size = 16\<rparr> \<and>
   memory \<lparr>memory = 4096, free_list = 4096, block_size = 48,
           block_count = 1, payload_size = 16\<rparr> mod alignof_ptr = 0 \<and>
   Allocator_allocate True (fst ex_pool, snd ex_pool) = (Returned 4120, ex_pool_busy) \<and>
   block_size \<lparr>memory = 4096, free_list = 4096, block_size = 48,
               block_count = 1, payload_size = 16\<rparr> mod alignof_Block = 0 \<and>
   4120 mod alignof_ptr = 0"
proof -
  have 1: "pool_inv True {} (fst ex_pool, snd ex_pool)" using ex_pool_inv by simp
  have 2: "m_MemoryPool (snd ex_pool) = Some \<lparr>memory = 4096, free_list = 4096, block_size = 48,
                             block_count = 1, payload_size = 16\<rparr>"
    by (simp add: ex_pool_eq)
  have 3: "memory \<lparr>memory = 4096, free_list = 4096, block_size = 48,
           block_count = 1, payload_size = 16\<rparr> mod alignof_ptr = 0"
    by (simp add: alignof_ptr_def)
  have 4: "Allocator_allocate True (fst ex_pool, snd ex_pool) = (Returned 4120, ex_pool_busy)"
    using ex_pool_allocate by (simp add: ex_pool_busy_def prod_eq_iff)
  from allocate_pointer_aligned[OF 1 2 3 4] 1 2 3 4 show ?thesis by simp
qed

section \<open>The checks of \<open>free(ptr)\<close>\<close>

lemma in_slots_iff:
  assumes "0 < block_size pool"
  shows "b \<in> set (slots pool) \<longleftrightarrow>
           memory pool \<le> b \<and> b < memory pool + block_size pool * block_count pool \<and>
           (b - memory pool) mod block_size pool = 0"
proof
  assume "b \<in> set (slots pool)"
  then obtain i where i: "i < block_count pool" "b = memory pool + i * block_size pool"
    by (auto simp: in_slots)
  have "b + block_size pool \<le> memory pool + block_size pool * block_count pool"
    unfolding i(2) by (rule slot_end_le[OF i(1)])
  with assms have "b < memory pool + block_size pool * block_count pool" by linarith
  with i show "memory pool \<le> b \<and> b < memory pool + block_size pool * block_count pool \<and>
           (b - memory pool) mod block_size pool = 0"
    by simp
next
  assume a: "memory pool \<le> b \<and> b < memory pool + block_size pool * block_count pool \<and>
           (b - memory pool) mod block_size pool = 0"
  define i where "i = (b - memory pool) div block_size pool"
  have "block_size pool dvd b - memory pool"
    using a by (simp add: dvd_eq_mod_eq_0)
  hence e: "b - memory pool = i * block_size pool"
    unfolding i_def by simp
  hence b: "b = memory pool + i * block_size pool" using a by linarith
  have c: "block_size pool * block_count pool = block_count pool * block_size pool"
    by (rule mult.commute)
  have "i * block_size pool < block_count pool * block_size pool"
    using a e unfolding c by linarith
  hence "i < block_count pool" by simp
  with b show "b \<in> set (slots pool)" by (auto simp: in_slots)
qed

lemma free_unfold:
  assumes lay: "pool_layout dbg a" and pool: "m_MemoryPool a = Some pool" and nz: "ptr \<noteq> nullptr"
  defines "b \<equiv> block_ptr_of dbg ptr"
  shows "Allocator_free dbg ptr (h, a) =
     (if b < memory pool \<or> memory pool + block_size pool * block_count pool \<le> b
      then (Aborted NotFromPool, h, a)
      else if (b - memory pool) mod block_size pool \<noteq> 0 then (Aborted NotBlockAligned, h, a)
      else if dbg \<and> pool_id (hdr h b) \<noteq> m_PoolId a then (Aborted WrongAllocator, h, a)
      else if dbg \<and> is_free (hdr h b) then (Aborted DoubleFree, h, a)
      else if dbg \<and> (canary_front (hdr h b) \<noteq> CANARY_VALUE \<or>
                     u32 h (rear_of b (block_size pool)) \<noteq> CANARY_VALUE)
      then (Aborted CanarySmashed, h, a)
      else (Returned (), after_free dbg b pool h, a\<lparr>m_MemoryPool := Some (pool\<lparr>free_list := b\<rparr>)\<rparr>))"
proof -
  from lay pool have init: "m_Initialized a"
    and fit: "memory pool + block_size pool * block_count pool < SIZE_MOD"
    by (auto simp: pool_layout_iff)
  show ?thesis
    using nz init pool mem_end_nowrap[OF fit]
    by (cases dbg)
       (auto simp add: Allocator_free_def Let_def after_free_def b_def block_ptr_of_def)
qed

text \<open>
  C6, as amended. On an initialised pool, \<open>free(ptr)\<close> of a non-null pointer aborts if and
  only if the block address \<open>ptr - sizeof(Block)\<close> lies outside the buffer, or is not at
  a slot boundary (\<open>(ptr - sizeof(Block) - buffer_start) % stride != 0\<close>), or, in a
  \<open>DEBUG\<close> build only, the block carries another pool's identifier, is marked free or has
  a damaged canary. Otherwise the call returns, the block is the new head of the free
  list, its link is the old head and no other link has changed. In a release build
  the call returns exactly when \<open>ptr - sizeof(Block)\<close> is one of the \<open>count\<close> slots.
\<close>

theorem free_aborts_iff:
  assumes "pool_layout dbg a" and "m_MemoryPool a = Some pool" and "ptr \<noteq> nullptr"
  shows
   "((\<exists>d. fst (Allocator_free dbg ptr (h, a)) = Aborted d) \<longleftrightarrow>
       block_ptr_of dbg ptr < memory pool \<or>
       memory pool + block_size pool * block_count pool \<le> block_ptr_of dbg ptr \<or>
       (block_ptr_of dbg ptr - memory pool) mod block_size pool \<noteq> 0 \<or>
       dbg \<and> (pool_id (hdr h (block_ptr_of dbg ptr)) \<noteq> m_PoolId a \<or>
              is_free (hdr h (block_ptr_of dbg ptr)) \<or>
              canary_front (hdr h (block_ptr_of dbg ptr)) \<noteq> CANARY_VALUE \<or>
              u32 h (rear_of (block_ptr_of dbg ptr) (block_size pool)) \<noteq> CANARY_VALUE)) \<and>
    ((\<forall>d. fst (Allocator_free dbg ptr (h, a)) \<noteq> Aborted d) \<longrightarrow>
       (\<exists>h'. Allocator_free dbg ptr (h, a) =
               (Returned (), h', a\<lparr>m_MemoryPool := Some (pool\<lparr>free_list := block_ptr_of dbg ptr\<rparr>)\<rparr>) \<and>
             nextf h' (block_ptr_of dbg ptr) = free_list pool \<and>
             (\<forall>c. c \<noteq> block_ptr_of dbg ptr \<longrightarrow> nextf h' c = nextf h c))) \<and>
    (\<not> dbg \<longrightarrow>
       ((\<forall>d. fst (Allocator_free dbg ptr (h, a)) \<noteq> Aborted d) \<longleftrightarrow>
          block_ptr_of dbg ptr \<in> set (slots pool)))"
proof -
  from assms(1,2) have "sizeof_Block dbg \<le> block_size pool"
    by (auto simp: pool_layout_iff)
  hence pos: "0 < block_size pool" using sizeof_Block_pos[of dbg] by linarith
  note u = free_unfold[OF assms, of h]
  have 1: "(\<exists>d. fst (Allocator_free dbg ptr (h, a)) = Aborted d) \<longleftrightarrow>
       block_ptr_of dbg ptr < memory pool \<or>
       memory pool + block_size pool * block_count pool \<le> block_ptr_of dbg ptr \<or>
       (block_ptr_of dbg ptr - memory pool) mod block_size pool \<noteq> 0 \<or>
       dbg \<and> (pool_id (hdr h (block_ptr_of dbg ptr)) \<noteq> m_PoolId a \<or>
              is_free (hdr h (block_ptr_of dbg ptr)) \<or>
              canary_front (hdr h (block_ptr_of dbg ptr)) \<noteq> CANARY_VALUE \<or>
              u32 h (rear_of (block_ptr_of dbg ptr) (block_size pool)) \<noteq> CANARY_VALUE)"
    unfolding u by auto
  have 2: "(\<forall>d. fst (Allocator_free dbg ptr (h, a)) \<noteq> Aborted d) \<longrightarrow>
       (\<exists>h'. Allocator_free dbg ptr (h, a) =
               (Returned (), h', a\<lparr>m_MemoryPool := Some (pool\<lparr>free_list := block_ptr_of dbg ptr\<rparr>)\<rparr>) \<and>
             nextf h' (block_ptr_of dbg ptr) = free_list pool \<and>
             (\<forall>c. c \<noteq> block_ptr_of dbg ptr \<longrightarrow> nextf h' c = nextf h c))"
    unfolding u by (auto simp: nextf_after_free)
  have 3: "\<not> dbg \<longrightarrow>
       ((\<forall>d. fst (Allocator_free dbg ptr (h, a)) \<noteq> Aborted d) \<longleftrightarrow>
          block_ptr_of dbg ptr \<in> set (slots pool))"
    unfolding u in_slots_iff[OF pos] by auto
  from 1 2 3 show ?thesis by blast
qed

section \<open>The release example pool\<close>

lemma upt_0_2: "[0..<2] = [0, Suc 0]"
  by (simp add: numeral_2_eq_2)

lemma ex_release_eq:
  "ex_release =
     (heap0\<lparr>hdr := (hdr heap0)
                (4096 := \<lparr>next = 0, is_free = False, pool_id = 0, canary_front = 0\<rparr>,
                 4120 := \<lparr>next = 4096, is_free = False, pool_id = 0, canary_front = 0\<rparr>)\<rparr>,
      \<lparr>m_Initialized = True,
       m_MemoryPool = Some \<lparr>memory = 4096, free_list = 4120, block_size = 24,
                             block_count = 2, payload_size = 16\<rparr>,
       m_PoolId = 0\<rparr>)"
  by (simp add: ex_release_def Allocator_ctor_def Let_def raw_block_size_16 init_blocks_def
      init_block_eq SIZE_MOD_def sz_mul_def ptr_add_def nullptr_def upt_0_2)

lemma ex_release_busy_eq:
  "ex_release_busy =
     (heap0\<lparr>hdr := (hdr heap0)
                (4096 := \<lparr>next = 0, is_free = False, pool_id = 0, canary_front = 0\<rparr>,
                 4120 := \<lparr>next = 4096, is_free = False, pool_id = 0, canary_front = 0\<rparr>)\<rparr>,
      \<lparr>m_Initialized = True,
       m_MemoryPool = Some \<lparr>memory = 4096, free_list = 4096, block_size = 24,
                             block_count = 2, payload_size = 16\<rparr>,
       m_PoolId = 0\<rparr>)"
  unfolding ex_release_busy_def ex_release_eq
  by (simp add: Allocator_allocate_def Let_def nullptr_def)

lemma ex_release_allocate: "fst (Allocator_allocate False ex_release) = Returned 4128"
  unfolding ex_release_eq
  by (simp add: Allocator_allocate_def Let_def nullptr_def ptr_add_def SIZE_MOD_def
      sizeof_Block_def)

lemma ex_release_layout: "pool_layout False (snd ex_release_busy)"
  unfolding ex_release_busy_eq
  by (simp add: pool_layout_def arith_defs)

lemma ex_release_free_in_use:
  "fst (Allocator_free False 4128 ex_release_busy) = Returned ()"
  unfolding ex_release_busy_eq
  by (simp add: Allocator_free_def Let_def arith_defs)

lemma ex_release_free_slot_boundary:
  "fst (Allocator_free False 4120 ex_release_busy) = Aborted NotBlockAligned"
  unfolding ex_release_busy_eq
  by (simp add: Allocator_free_def Let_def arith_defs)

lemma ex_pool_busy_eq:
  "ex_pool_busy =
     (heap0\<lparr>hdr := (hdr heap0)(4096 := \<lparr>next = 0, is_free = False, pool_id = 8192,
                                        canary_front = CANARY_VALUE\<rparr>),
            u32 := (u32 heap0)(4140 := CANARY_VALUE)\<rparr>,
      \<lparr>m_Initialized = True,
       m_MemoryPool = Some \<lparr>memory = 4096, free_list = 0, block_size = 48,
                             block_count = 1, payload_size = 16\<rparr>,
       m_PoolId = 8192\<rparr>)"
  unfolding ex_pool_busy_def ex_pool_eq
  by (simp add: Allocator_allocate_def Let_def heap_defs rear_of_def SIZE_MOD_def
      ptr_add_def ptr_sub_def sizeof_uint32_def nullptr_def)

theorem free_aborts_iff_witness:
  "pool_layout False (snd ex_release_busy) \<and>
   m_MemoryPool (snd ex_release_busy)
     = Some \<lparr>memory = 4096, free_list = 4096, block_size = 24, block_count = 2,
              payload_size = 16\<rparr> \<and>
   4128 \<noteq> nullptr \<and>
   (\<forall>d. fst (Allocator_free False 4128 (fst ex_release_busy, snd ex_release_busy)) \<noteq> Aborted d) \<and>
   block_ptr_of False 4128 = 4120 \<and>
   4120 \<in> set (slots \<lparr>memory = 4096, free_list = 4096, block_size = 24, block_count = 2,
                        payload_size = 16\<rparr>) \<and>
   (\<exists>h'. Allocator_free False 4128 (fst ex_release_busy, snd ex_release_busy) =
           (Returned (), h',
            (snd ex_release_busy)\<lparr>m_MemoryPool :=
               Some \<lparr>memory = 4096, free_list = 4120, block_size = 24, block_count = 2,
                      payload_size = 16\<rparr>\<rparr>) \<and>
         nextf h' 4120 = 4096 \<and>
         (\<forall>c. c \<noteq> 4120 \<longrightarrow> nextf h' c = nextf (fst ex_release_busy) c))"
proof -
  have 1: "m_MemoryPool (snd ex_release_busy)
     = Some \<lparr>memory = 4096, free_list = 4096, block_size = 24, block_count = 2,
              payload_size = 16\<rparr>"
    by (simp add: ex_release_busy_eq)
  have 2: "4128 \<noteq> nullptr" by (simp add: nullptr_def)
  have 3: "block_ptr_of False 4128 = 4120"
    by (simp add: block_ptr_of_def arith_defs)
  have 4: "\<forall>d. fst (Allocator_free False 4128 (fst ex_release_busy, snd ex_release_busy)) \<noteq> Aborted d"
    using ex_release_free_in_use by simp
  have 5: "4120 \<in> set (slots \<lparr>memory = 4096, free_list = 4096, block_size = 24, block_count = 2,
                        payload_size = 16\<rparr>)"
    by (simp add: slots_def upt_0_2)
  from free_aborts_iff[OF ex_release_layout 1 2, of "fst ex_release_busy"] ex_release_layout 1 2 3 4 5
  show ?thesis by simp
qed

text \<open>
  C6, as stated, fails. On the release pool with its buffer at 4096 and stride 24, the
  pointer 4128 that \<open>allocate()\<close> returned lies inside the buffer and has
  \<open>(ptr - buffer_start) % stride = 8\<close>, yet \<open>free\<close> returns; and the pointer 4120 lies
  inside the buffer with \<open>(ptr - buffer_start) % stride = 0\<close>, yet \<open>free\<close> aborts. On the
  \<open>DEBUG\<close> pool, a block address inside the buffer and at a slot boundary does not
  prevent the abort of a second \<open>free\<close>.
\<close>

theorem free_aborts_claim_counterexample:
  "m_Initialized (snd ex_release_busy) \<and>
   m_MemoryPool (snd ex_release_busy)
     = Some \<lparr>memory = 4096, free_list = 4096, block_size = 24, block_count = 2,
              payload_size = 16\<rparr> \<and>
   fst (Allocator_allocate False ex_release) = Returned 4128 \<and>
   (4096::nat) \<le> 4128 \<and> (4128::nat) < 4096 + 24 * 2 \<and> (4128 - 4096) mod 24 \<noteq> (0::nat) \<and>
   fst (Allocator_free False 4128 ex_release_busy) = Returned () \<and>
   (4096::nat) \<le> 4120 \<and> (4120::nat) < 4096 + 24 * 2 \<and> (4120 - 4096) mod 24 = (0::nat) \<and>
   fst (Allocator_free False 4120 ex_release_busy) = Aborted NotBlockAligned \<and>
   block_ptr_of True 4120 = 4096 \<and>
   fst (Allocator_free True 4120 (snd (Allocator_free True 4120 ex_pool_busy)))
     = Aborted DoubleFree"
proof -
  have "block_ptr_of True 4120 = 4096"
    by (simp add: block_ptr_of_def arith_defs)
  moreover have "fst (Allocator_free True 4120 (snd (Allocator_free True 4120 ex_pool_busy)))
     = Aborted DoubleFree"
    unfolding ex_pool_busy_eq
    by (simp add: Allocator_free_def Let_def heap_defs rear_of_def arith_defs)
  ultimately show ?thesis
    using ex_release_allocate ex_release_free_in_use ex_release_free_slot_boundary
    by (simp add: ex_release_busy_eq)
qed

section \<open>Pools whose construction failed\<close>

lemma failed_ctor:
  assumes "bsize = 0 \<or> bcount = 0 \<or> mem = nullptr"
  shows "fst (Allocator_ctor dbg this mem h bsize bcount) = h"
    and "\<not> Allocator_is_initialized (snd (Allocator_ctor dbg this mem h bsize bcount))"
  using assms by (auto simp: Allocator_ctor_def Allocator_is_initialized_def Let_def)

lemma uninitialized_allocate:
  "\<not> m_Initialized a \<Longrightarrow> Allocator_allocate dbg (h, a) = (Returned nullptr, h, a)"
  by (simp add: Allocator_allocate_def)

lemma uninitialized_free:
  "\<not> m_Initialized a \<Longrightarrow> Allocator_free dbg ptr (h, a) = (Returned (), h, a)"
  by (simp add: Allocator_free_def)

text \<open>
  C5 fails on the code. After a construction with a zero argument the \<open>unique_ptr\<close>
  holds no pool and \<open>block_size()\<close> dereferences it, where \<open>allocate()\<close> and \<open>free(ptr)\<close>
  test \<open>!m_MemoryPool\<close> first.
\<close>

theorem block_size_of_failed_pool:
  "Allocator_block_size (snd (Allocator_ctor dbg this mem h 0 bcount)) = NullDeref \<and>
   Allocator_block_size (snd (Allocator_ctor dbg this mem h bsize 0)) = NullDeref \<and>
   Allocator_block_size (snd (Allocator_ctor False 8192 4096 heap0 0 10)) = NullDeref"
  by (simp add: Allocator_ctor_def Allocator_block_size_def)

section \<open>Pools in one memory\<close>

lemma ctor_frame:
  assumes sz: "0 < bsize" "0 < bcount" and ok: "buffer_ok dbg mem bsize bcount"
    and x: "x < mem \<or> mem + raw_block_size dbg bsize * bcount \<le> x"
  shows "hdr (fst (Allocator_ctor dbg this mem h bsize bcount)) x = hdr h x"
    and "u32 (fst (Allocator_ctor dbg this mem h bsize bcount)) x = u32 h x"
proof -
  define bs where "bs = raw_block_size dbg bsize"
  define pid where "pid = (if dbg then this AND 0xFFFFFFFF else 0)"
  obtain h' fl where loop: "init_blocks dbg pid mem bs (h, nullptr) bcount = (h', fl)"
    by (cases "init_blocks dbg pid mem bs (h, nullptr) bcount")
  have mem: "mem \<noteq> nullptr" and fit: "mem + bs * bcount < SIZE_MOD"
    using ok by (simp_all add: buffer_ok_def bs_def)
  have ctor: "fst (Allocator_ctor dbg this mem h bsize bcount) = h'"
    using ctor_unfold[of bsize bcount mem dbg this h h' fl] sz mem loop
    by (simp add: bs_def pid_def)
  note stride = buffer_ok_stride[OF ok, folded bs_def]
  have four: "sizeof_uint32 \<le> bs"
    using stride(1) by (simp add: sizeof_Block_def sizeof_uint32_def split: if_splits)
  note char = init_blocks_char[OF stride(2) fit stride(3) order_refl loop]
  have out: "x < mem \<or> mem + bs * bcount \<le> x" using x by (simp add: bs_def)
  have "x \<notin> (\<lambda>i. mem + i * bs) ` {..<bcount}"
  proof
    assume "x \<in> (\<lambda>i. mem + i * bs) ` {..<bcount}"
    then obtain i where i: "i < bcount" "x = mem + i * bs" by auto
    from slot_end_le[OF i(1), of mem bs] stride(2) i(2) out show False by linarith
  qed
  with char show "hdr (fst (Allocator_ctor dbg this mem h bsize bcount)) x = hdr h x"
    unfolding ctor by simp
  have "x \<notin> (\<lambda>i. rear_of (mem + i * bs) bs) ` {..<bcount}"
  proof
    assume "x \<in> (\<lambda>i. rear_of (mem + i * bs) bs) ` {..<bcount}"
    then obtain i where i: "i < bcount" "x = rear_of (mem + i * bs) bs" by auto
    from i(2) have "x = mem + i * bs + bs - sizeof_uint32"
      by (simp only: rear_of_nowrap[OF fit i(1) four])
    with slot_end_le[OF i(1), of mem bs] four out show False
      by (simp add: sizeof_uint32_def) linarith
  qed
  with char show "u32 (fst (Allocator_ctor dbg this mem h bsize bcount)) x = u32 h x"
    unfolding ctor by simp
qed

lemma pool_inv_frame:
  assumes inv: "pool_inv dbg L (h, a)" and pool: "m_MemoryPool a = Some pool"
    and same: "\<And>x. memory pool \<le> x \<Longrightarrow> x < memory pool + block_size pool * block_count pool \<Longrightarrow>
                 hdr h' x = hdr h x \<and> u32 h' x = u32 h x"
  shows "pool_inv dbg L (h', a)"
proof -
  from inv pool obtain fs where lay: "pool_layout dbg a"
    and fb: "free_blocks h pool = Some fs"
    and dist: "distinct fs" and sub: "set fs \<subseteq> set (slots pool)"
    and disj: "set fs \<inter> in_use_blocks dbg L = {}"
    and cover: "set fs \<union> in_use_blocks dbg L = set (slots pool)"
    and dbgp: "dbg \<Longrightarrow> \<forall>c \<in> set (slots pool).
            pool_id (hdr h c) = m_PoolId a \<and>
            (is_free (hdr h c) \<longleftrightarrow> c \<in> set fs) \<and>
            canary_front (hdr h c) = CANARY_VALUE \<and>
            u32 h (rear_of c (block_size pool)) = CANARY_VALUE"
    by (auto simp: pool_inv_iff)
  from lay pool have mem: "memory pool \<noteq> nullptr"
    and room: "sizeof_Block dbg + (if dbg then sizeof_uint32 else 0) \<le> block_size pool"
    and fit: "memory pool + block_size pool * block_count pool < SIZE_MOD"
    by (auto simp: pool_layout_iff)
  have hs: "hdr h' c = hdr h c" if "c \<in> set (slots pool)" for c
    using slot_facts(2,8)[OF room fit mem that] same by simp
  have us: "u32 h' (rear_of c (block_size pool)) = u32 h (rear_of c (block_size pool))"
    if c: "c \<in> set (slots pool)" and d: dbg for c
  proof -
    from c obtain i where i: "i < block_count pool" "c = memory pool + i * block_size pool"
      by (auto simp: in_slots)
    have four: "sizeof_uint32 \<le> block_size pool" using room d by simp
    hence r: "rear_of c (block_size pool) = c + block_size pool - sizeof_uint32"
      unfolding i(2) by (rule rear_of_nowrap[OF fit i(1)])
    from slot_facts(2,3)[OF room fit mem c] four room d
    have "memory pool \<le> rear_of c (block_size pool)"
      and "rear_of c (block_size pool) < memory pool + block_size pool * block_count pool"
      unfolding r by (simp_all add: sizeof_uint32_def sizeof_Block_def)
    thus ?thesis using same by simp
  qed
  from walk_chain[OF fb[unfolded free_blocks_def]]
  have ch: "chain (nextf h) (free_list pool) fs" and len: "length fs \<le> block_count pool"
    by simp_all
  have "chain (nextf h') (free_list pool) fs = chain (nextf h) (free_list pool) fs"
    by (rule chain_cong) (use hs sub in \<open>auto simp: nextf_def\<close>)
  with ch have "chain (nextf h') (free_list pool) fs" by simp
  from chain_walk[OF this len] have fb': "free_blocks h' pool = Some fs"
    by (simp add: free_blocks_def)
  show ?thesis
    unfolding pool_inv_iff
    using lay pool fb' dist sub disj cover dbgp hs us by simp
qed

lemma ctor_snd:
  assumes sz: "0 < bsize" "0 < bcount" and ok: "buffer_ok dbg mem bsize bcount"
  shows "snd (Allocator_ctor dbg this mem h bsize bcount) = fresh_pool dbg this mem bsize bcount"
proof -
  define bs where "bs = raw_block_size dbg bsize"
  define pid where "pid = (if dbg then this AND 0xFFFFFFFF else 0)"
  obtain h' fl where loop: "init_blocks dbg pid mem bs (h, nullptr) bcount = (h', fl)"
    by (cases "init_blocks dbg pid mem bs (h, nullptr) bcount")
  have mem: "mem \<noteq> nullptr" and fit: "mem + bs * bcount < SIZE_MOD"
    using ok by (simp_all add: buffer_ok_def bs_def)
  note stride = buffer_ok_stride[OF ok, folded bs_def]
  from init_blocks_char[OF stride(2) fit stride(3) order_refl loop] sz(2)
  have "fl = mem + (bcount - 1) * bs" by simp
  thus ?thesis
    using ctor_unfold[of bsize bcount mem dbg this h h' fl] sz mem loop
    by (simp add: bs_def pid_def fresh_pool_def)
qed

lemma raw_block_size_slab:
  "raw_block_size dbg 64 = (if dbg then 96 else 72)"
  "raw_block_size dbg 128 = (if dbg then 160 else 136)"
  "raw_block_size dbg 256 = (if dbg then 288 else 264)"
  "raw_block_size dbg 512 = (if dbg then 544 else 520)"
  by (simp_all add: raw_block_size_def align_up_eq arith_defs)

lemma slab_ctor_unfold:
  "SlabAllocator_ctor dbg e0 e1 e2 e3 h =
     (let s0 = Allocator_ctor dbg (fst e0) (snd e0) h 64 100;
          s1 = Allocator_ctor dbg (fst e1) (snd e1) (fst s0) 128 100;
          s2 = Allocator_ctor dbg (fst e2) (snd e2) (fst s1) 256 100;
          s3 = Allocator_ctor dbg (fst e3) (snd e3) (fst s2) 512 100
      in (fst s3, [snd s0, snd s1, snd s2, snd s3]))"
  by (simp add: SlabAllocator_ctor_def Let_def case_prod_unfold)

lemma pool_inv_ctor_frame:
  assumes inv: "pool_inv dbg L (h, fresh_pool dbg this mem bsize bcount)"
    and sz: "0 < bsize'" "0 < bcount'" and ok: "buffer_ok dbg mem' bsize' bcount'"
    and dj: "buffers_disjoint mem (raw_block_size dbg bsize * bcount)
                              mem' (raw_block_size dbg bsize' * bcount')"
  shows "pool_inv dbg L (fst (Allocator_ctor dbg this' mem' h bsize' bcount'),
                         fresh_pool dbg this mem bsize bcount)"
proof (rule pool_inv_frame[OF inv])
  show "m_MemoryPool (fresh_pool dbg this mem bsize bcount)
          = Some \<lparr>memory = mem, free_list = mem + (bcount - 1) * raw_block_size dbg bsize,
                  block_size = raw_block_size dbg bsize,
                  block_count = bcount, payload_size = bsize\<rparr>"
    by (simp add: fresh_pool_def)
next
  fix x
  let ?pool = "\<lparr>memory = mem, free_list = mem + (bcount - 1) * raw_block_size dbg bsize,
                  block_size = raw_block_size dbg bsize,
                  block_count = bcount, payload_size = bsize\<rparr>"
  assume "memory ?pool \<le> x" and "x < memory ?pool + block_size ?pool * block_count ?pool"
  hence "x < mem' \<or> mem' + raw_block_size dbg bsize' * bcount' \<le> x"
    using dj by (auto simp: buffers_disjoint_def)
  from ctor_frame[OF sz ok this, of this' h]
  show "hdr (fst (Allocator_ctor dbg this' mem' h bsize' bcount')) x = hdr h x \<and>
        u32 (fst (Allocator_ctor dbg this' mem' h bsize' bcount')) x = u32 h x"
    by simp
qed

lemma slab_ctor_pools:
  fixes h :: heap and e0 e1 e2 e3 :: "addr \<times> addr"
  assumes ok: "slab_buffers_ok dbg (snd e0) (snd e1) (snd e2) (snd e3)"
  defines "s \<equiv> SlabAllocator_ctor dbg e0 e1 e2 e3 h"
  defines "a0 \<equiv> fresh_pool dbg (fst e0) (snd e0) 64 100"
  defines "a1 \<equiv> fresh_pool dbg (fst e1) (snd e1) 128 100"
  defines "a2 \<equiv> fresh_pool dbg (fst e2) (snd e2) 256 100"
  defines "a3 \<equiv> fresh_pool dbg (fst e3) (snd e3) 512 100"
  shows "snd s = [a0, a1, a2, a3]"
    and "pool_inv dbg {} (fst s, a0)" and "pool_inv dbg {} (fst s, a1)"
    and "pool_inv dbg {} (fst s, a2)" and "pool_inv dbg {} (fst s, a3)"
proof -
  from ok have b0: "buffer_ok dbg (snd e0) 64 100" and b1: "buffer_ok dbg (snd e1) 128 100"
    and b2: "buffer_ok dbg (snd e2) 256 100" and b3: "buffer_ok dbg (snd e3) 512 100"
    and d01: "buffers_disjoint (snd e0) (raw_block_size dbg 64 * 100) (snd e1) (raw_block_size dbg 128 * 100)"
    and d02: "buffers_disjoint (snd e0) (raw_block_size dbg 64 * 100) (snd e2) (raw_block_size dbg 256 * 100)"
    and d03: "buffers_disjoint (snd e0) (raw_block_size dbg 64 * 100) (snd e3) (raw_block_size dbg 512 * 100)"
    and d12: "buffers_disjoint (snd e1) (raw_block_size dbg 128 * 100) (snd e2) (raw_block_size dbg 256 * 100)"
    and d13: "buffers_disjoint (snd e1) (raw_block_size dbg 128 * 100) (snd e3) (raw_block_size dbg 512 * 100)"
    and d23: "buffers_disjoint (snd e2) (raw_block_size dbg 256 * 100) (snd e3) (raw_block_size dbg 512 * 100)"
    by (simp_all add: slab_buffers_ok_def Let_def)
  define s0 where "s0 = Allocator_ctor dbg (fst e0) (snd e0) h 64 100"
  define s1 where "s1 = Allocator_ctor dbg (fst e1) (snd e1) (fst s0) 128 100"
  define s2 where "s2 = Allocator_ctor dbg (fst e2) (snd e2) (fst s1) 256 100"
  define s3 where "s3 = Allocator_ctor dbg (fst e3) (snd e3) (fst s2) 512 100"
  have s: "s = (fst s3, [snd s0, snd s1, snd s2, snd s3])"
    unfolding s_def slab_ctor_unfold s0_def s1_def s2_def s3_def by (simp add: Let_def)
  have e0: "snd s0 = a0" unfolding s0_def a0_def by (rule ctor_snd[OF _ _ b0]) simp_all
  have e1: "snd s1 = a1" unfolding s1_def a1_def by (rule ctor_snd[OF _ _ b1]) simp_all
  have e2: "snd s2 = a2" unfolding s2_def a2_def by (rule ctor_snd[OF _ _ b2]) simp_all
  have e3: "snd s3 = a3" unfolding s3_def a3_def by (rule ctor_snd[OF _ _ b3]) simp_all
  show "snd s = [a0, a1, a2, a3]" by (simp add: s e0 e1 e2 e3)
  have "pool_inv dbg {} (fst s0, snd s0)"
    using ctor_pool_inv[OF _ _ b0, of "fst e0" h] by (simp add: s0_def)
  hence i00: "pool_inv dbg {} (fst s0, a0)" unfolding e0 .
  have "pool_inv dbg {} (fst s1, snd s1)"
    using ctor_pool_inv[OF _ _ b1, of "fst e1" "fst s0"] by (simp add: s1_def)
  hence i11: "pool_inv dbg {} (fst s1, a1)" unfolding e1 .
  have "pool_inv dbg {} (fst s2, snd s2)"
    using ctor_pool_inv[OF _ _ b2, of "fst e2" "fst s1"] by (simp add: s2_def)
  hence i22: "pool_inv dbg {} (fst s2, a2)" unfolding e2 .
  have "pool_inv dbg {} (fst s3, snd s3)"
    using ctor_pool_inv[OF _ _ b3, of "fst e3" "fst s2"] by (simp add: s3_def)
  hence i33: "pool_inv dbg {} (fst s3, a3)" unfolding e3 .
  have i01: "pool_inv dbg {} (fst s1, a0)"
    unfolding s1_def a0_def
    by (rule pool_inv_ctor_frame[OF i00[unfolded a0_def] _ _ b1]) (use d01 in simp_all)
  have i02: "pool_inv dbg {} (fst s2, a0)"
    unfolding s2_def a0_def
    by (rule pool_inv_ctor_frame[OF i01[unfolded a0_def] _ _ b2]) (use d02 in simp_all)
  have i03: "pool_inv dbg {} (fst s3, a0)"
    unfolding s3_def a0_def
    by (rule pool_inv_ctor_frame[OF i02[unfolded a0_def] _ _ b3]) (use d03 in simp_all)
  have i12: "pool_inv dbg {} (fst s2, a1)"
    unfolding s2_def a1_def
    by (rule pool_inv_ctor_frame[OF i11[unfolded a1_def] _ _ b2]) (use d12 in simp_all)
  have i13: "pool_inv dbg {} (fst s3, a1)"
    unfolding s3_def a1_def
    by (rule pool_inv_ctor_frame[OF i12[unfolded a1_def] _ _ b3]) (use d13 in simp_all)
  have i23: "pool_inv dbg {} (fst s3, a2)"
    unfolding s3_def a2_def
    by (rule pool_inv_ctor_frame[OF i22[unfolded a2_def] _ _ b3]) (use d23 in simp_all)
  show "pool_inv dbg {} (fst s, a0)" "pool_inv dbg {} (fst s, a1)"
    "pool_inv dbg {} (fst s, a2)" "pool_inv dbg {} (fst s, a3)"
    using i03 i13 i23 i33 by (simp_all add: s)
qed

section \<open>The scan of the dispatcher\<close>

lemma slab_allocate_first_fit:
  assumes "\<forall>a \<in> set pre. \<exists>bs. Allocator_block_size a = Returned bs \<and> bs < sz"
    and "Allocator_block_size a = Returned bs" and "sz \<le> bs"
  shows "slab_allocate_loop dbg sz h (pre @ a # post) =
           (case Allocator_allocate dbg (h, a) of (r, h', a') \<Rightarrow> (r, h', pre @ a' # post))"
  using assms by (induction pre) (auto split: prod.splits)

lemma slab_allocate_none:
  assumes "\<forall>a \<in> set slabs. \<exists>bs. Allocator_block_size a = Returned bs \<and> bs < sz"
  shows "slab_allocate_loop dbg sz h slabs = (Returned nullptr, h, slabs)"
  using assms by (induction slabs) auto

lemma slab_free_first_fit:
  assumes "\<forall>a \<in> set pre. \<exists>bs. Allocator_block_size a = Returned bs \<and> bs < sz"
    and "Allocator_block_size a = Returned bs" and "sz \<le> bs"
  shows "slab_free_loop dbg ptr sz h (pre @ a # post) =
           (case Allocator_free dbg ptr (h, a) of (r, h', a') \<Rightarrow> (r, h', pre @ a' # post))"
  using assms by (induction pre) (auto split: prod.splits)

lemma slab_free_none:
  assumes "\<forall>a \<in> set slabs. \<exists>bs. Allocator_block_size a = Returned bs \<and> bs < sz"
  shows "slab_free_loop dbg ptr sz h slabs = (Returned (), h, slabs)"
  using assms by (induction slabs) auto

lemma block_size_fresh_pool:
  "Allocator_block_size (fresh_pool dbg this mem bsize bcount) = Returned (raw_block_size dbg bsize)"
  by (simp add: Allocator_block_size_def fresh_pool_def)

lemma allocate_fresh_pool:
  assumes inv: "pool_inv dbg {} (h, fresh_pool dbg this mem bsize bcount)" and n: "0 < bcount"
  shows "\<exists>b h' a'. Allocator_allocate dbg (h, fresh_pool dbg this mem bsize bcount)
                     = (Returned (b + sizeof_Block dbg), h', a') \<and>
           b \<in> set (slots (the (m_MemoryPool (fresh_pool dbg this mem bsize bcount))))"
proof -
  define pool where "pool = the (m_MemoryPool (fresh_pool dbg this mem bsize bcount))"
  have pool: "m_MemoryPool (fresh_pool dbg this mem bsize bcount) = Some pool"
    by (simp add: pool_def fresh_pool_def)
  from inv pool obtain fs where fb: "free_blocks h pool = Some fs"
    and cover: "set fs \<union> in_use_blocks dbg {} = set (slots pool)"
    by (auto simp: pool_inv_iff)
  have "memory pool \<in> set (slots pool)"
    using n by (auto simp: in_slots pool_def fresh_pool_def intro!: exI[of _ 0])
  with cover have "fs \<noteq> []" by (auto simp: in_use_blocks_def)
  then obtain b bs where fs: "fs = b # bs" by (cases fs) auto
  from allocate_pop(1)[OF inv pool fb[unfolded fs]] cover fs
  show ?thesis unfolding pool_def[symmetric] by (auto simp: in_use_blocks_def)
qed

lemma slab_buffers_ok_ex:
  "slab_buffers_ok False 65536 131072 196608 262144"
  "slab_buffers_ok True 65536 131072 196608 262144"
  by (simp_all add: slab_buffers_ok_def buffer_ok_def raw_block_size_slab buffers_disjoint_def
      arith_defs)

section \<open>Claims about the dispatcher\<close>

text \<open>
  C8. A dispatcher whose four buffers the memory source supplied has the size classes
  64, 128, 256 and 512. On it, \<open>allocate(50)\<close> returns the payload pointer of a slot of
  the 64-byte pool and leaves the other pools as they were, \<open>allocate(500)\<close> returns the
  payload pointer of a slot of the 512-byte pool, and \<open>allocate(600)\<close> returns
  \<open>nullptr\<close> and changes nothing.
\<close>

theorem slab_scenario:
  assumes "slab_buffers_ok dbg (snd e0) (snd e1) (snd e2) (snd e3)"
  shows "\<exists>h' a0 a1 a2 a3 p0 p3.
     SlabAllocator_ctor dbg e0 e1 e2 e3 h = (h', [a0, a1, a2, a3]) \<and>
     size_classes [a0, a1, a2, a3] = [Some 64, Some 128, Some 256, Some 512] \<and>
     m_MemoryPool a0 = Some p0 \<and> block_count p0 = 100 \<and>
     m_MemoryPool a3 = Some p3 \<and> block_count p3 = 100 \<and>
     (\<exists>b h'' a0'. b \<in> set (slots p0) \<and>
        SlabAllocator_allocate dbg 50 (h', [a0, a1, a2, a3])
          = (Returned (b + sizeof_Block dbg), h'', [a0', a1, a2, a3])) \<and>
     (\<exists>b h'' a3'. b \<in> set (slots p3) \<and>
        SlabAllocator_allocate dbg 500 (h', [a0, a1, a2, a3])
          = (Returned (b + sizeof_Block dbg), h'', [a0, a1, a2, a3'])) \<and>
     SlabAllocator_allocate dbg 600 (h', [a0, a1, a2, a3])
          = (Returned nullptr, h', [a0, a1, a2, a3])"
proof -
  define s where "s = SlabAllocator_ctor dbg e0 e1 e2 e3 h"
  define a0 where "a0 = fresh_pool dbg (fst e0) (snd e0) 64 100"
  define a1 where "a1 = fresh_pool dbg (fst e1) (snd e1) 128 100"
  define a2 where "a2 = fresh_pool dbg (fst e2) (snd e2) 256 100"
  define a3 where "a3 = fresh_pool dbg (fst e3) (snd e3) 512 100"
  note sp = slab_ctor_pools[OF assms, of h, folded s_def a0_def a1_def a2_def a3_def]
  have s: "s = (fst s, [a0, a1, a2, a3])" using sp(1) by (simp add: prod_eq_iff)
  have bs: "Allocator_block_size a0 = Returned (raw_block_size dbg 64)"
    "Allocator_block_size a1 = Returned (raw_block_size dbg 128)"
    "Allocator_block_size a2 = Returned (raw_block_size dbg 256)"
    "Allocator_block_size a3 = Returned (raw_block_size dbg 512)"
    by (simp_all add: a0_def a1_def a2_def a3_def block_size_fresh_pool)
  have classes: "size_classes [a0, a1, a2, a3] = [Some 64, Some 128, Some 256, Some 512]"
    by (simp add: size_classes_def a0_def a1_def a2_def a3_def fresh_pool_def)
  from allocate_fresh_pool[OF sp(2)[unfolded a0_def]]
  obtain b0 h0 a0' where al0: "Allocator_allocate dbg (fst s, a0) = (Returned (b0 + sizeof_Block dbg), h0, a0')"
    and b0: "b0 \<in> set (slots (the (m_MemoryPool a0)))"
    unfolding a0_def by auto
  from allocate_fresh_pool[OF sp(5)[unfolded a3_def]]
  obtain b3 h3 a3' where al3: "Allocator_allocate dbg (fst s, a3) = (Returned (b3 + sizeof_Block dbg), h3, a3')"
    and b3: "b3 \<in> set (slots (the (m_MemoryPool a3)))"
    unfolding a3_def by auto
  have pre50: "\<forall>a \<in> set []. \<exists>bs. Allocator_block_size a = Returned bs \<and> bs < (50::nat)"
    by simp
  have fit50: "(50::nat) \<le> raw_block_size dbg 64" by (simp add: raw_block_size_slab)
  have r50: "SlabAllocator_allocate dbg 50 (fst s, [a0, a1, a2, a3])
          = (Returned (b0 + sizeof_Block dbg), h0, [a0', a1, a2, a3])"
    using slab_allocate_first_fit[OF pre50 bs(1) fit50, of dbg "fst s" "[a1, a2, a3]"] al0
    by (simp add: SlabAllocator_allocate_def)
  have pre500: "\<forall>a \<in> set [a0, a1, a2]. \<exists>bs. Allocator_block_size a = Returned bs \<and> bs < (500::nat)"
    using bs by (simp add: raw_block_size_slab)
  have fit500: "(500::nat) \<le> raw_block_size dbg 512" by (simp add: raw_block_size_slab)
  have r500: "SlabAllocator_allocate dbg 500 (fst s, [a0, a1, a2, a3])
          = (Returned (b3 + sizeof_Block dbg), h3, [a0, a1, a2, a3'])"
    using slab_allocate_first_fit[OF pre500 bs(4) fit500, of dbg "fst s" "[]"] al3
    by (simp add: SlabAllocator_allocate_def)
  have pre600: "\<forall>a \<in> set [a0, a1, a2, a3]. \<exists>bs. Allocator_block_size a = Returned bs \<and> bs < (600::nat)"
    using bs by (simp add: raw_block_size_slab)
  have r600: "SlabAllocator_allocate dbg 600 (fst s, [a0, a1, a2, a3])
          = (Returned nullptr, fst s, [a0, a1, a2, a3])"
    using slab_allocate_none[OF pre600, of dbg "fst s"]
    by (simp add: SlabAllocator_allocate_def)
  have p0: "m_MemoryPool a0 = Some (the (m_MemoryPool a0))" "block_count (the (m_MemoryPool a0)) = 100"
    and p3: "m_MemoryPool a3 = Some (the (m_MemoryPool a3))" "block_count (the (m_MemoryPool a3)) = 100"
    by (simp_all add: a0_def a3_def fresh_pool_def)
  show ?thesis
    unfolding s_def[symmetric]
    using s classes p0 p3 b0 b3 r50 r500 r600 by blast
qed

theorem slab_scenario_witness:
  "slab_buffers_ok True 65536 131072 196608 262144 \<and>
   (\<exists>h' a0 a1 a2 a3 p0 p3.
     SlabAllocator_ctor True (8192, 65536) (8200, 131072) (8208, 196608) (8216, 262144) heap0
       = (h', [a0, a1, a2, a3]) \<and>
     size_classes [a0, a1, a2, a3] = [Some 64, Some 128, Some 256, Some 512] \<and>
     m_MemoryPool a0 = Some p0 \<and> block_count p0 = 100 \<and>
     m_MemoryPool a3 = Some p3 \<and> block_count p3 = 100 \<and>
     (\<exists>b h'' a0'. b \<in> set (slots p0) \<and>
        SlabAllocator_allocate True 50 (h', [a0, a1, a2, a3])
          = (Returned (b + sizeof_Block True), h'', [a0', a1, a2, a3])) \<and>
     (\<exists>b h'' a3'. b \<in> set (slots p3) \<and>
        SlabAllocator_allocate True 500 (h', [a0, a1, a2, a3])
          = (Returned (b + sizeof_Block True), h'', [a0, a1, a2, a3'])) \<and>
     SlabAllocator_allocate True 600 (h', [a0, a1, a2, a3])
          = (Returned nullptr, h', [a0, a1, a2, a3]))"
  using slab_scenario[of True "(8192, 65536)" "(8200, 131072)" "(8208, 196608)" "(8216, 262144)" heap0]
    slab_buffers_ok_ex(2)
  by simp

section \<open>The release example dispatcher\<close>

lemma ex_slab_snd:
  "snd ex_slab = [fresh_pool False 8192 65536 64 100, fresh_pool False 8200 131072 128 100,
                  fresh_pool False 8208 196608 256 100, fresh_pool False 8216 262144 512 100]"
  unfolding ex_slab_def
  using slab_ctor_pools(1)[of False "(8192, 65536)" "(8200, 131072)" "(8208, 196608)"
      "(8216, 262144)" heap0] slab_buffers_ok_ex(1)
  by simp

lemma ex_slab_classes: "size_classes (snd ex_slab) = [Some 64, Some 128, Some 256, Some 512]"
  by (simp add: ex_slab_snd size_classes_def fresh_pool_def)

lemma ex_slab_allocate_70: "fst (SlabAllocator_allocate False 70 ex_slab) = Returned 72672"
  by (simp add: SlabAllocator_allocate_def ex_slab_snd fresh_pool_def Allocator_block_size_def
      raw_block_size_slab Allocator_allocate_def Let_def case_prod_unfold arith_defs)

lemma ex_slab_allocate_515: "fst (SlabAllocator_allocate False 515 ex_slab) = Returned 313632"
  by (simp add: SlabAllocator_allocate_def ex_slab_snd fresh_pool_def Allocator_block_size_def
      raw_block_size_slab Allocator_allocate_def Let_def case_prod_unfold arith_defs)

lemma ex_slab_free_foreign: "fst (SlabAllocator_free False 4096 515 ex_slab) = Aborted NotFromPool"
  by (simp add: SlabAllocator_free_def ex_slab_snd fresh_pool_def Allocator_block_size_def
      raw_block_size_slab Allocator_free_def Let_def case_prod_unfold arith_defs)

lemma ex_slab_allocate_500: "fst (SlabAllocator_allocate False 500 ex_slab) = Returned 313632"
  by (simp add: SlabAllocator_allocate_def ex_slab_snd fresh_pool_def Allocator_block_size_def
      raw_block_size_slab Allocator_allocate_def Let_def case_prod_unfold arith_defs)

lemma ex_slab_free_515:
  "fst (SlabAllocator_free False 313632 515 (snd (SlabAllocator_allocate False 500 ex_slab)))
     = Returned ()"
  "map_option free_list
     (m_MemoryPool (snd (snd (SlabAllocator_free False 313632 515
                               (snd (SlabAllocator_allocate False 500 ex_slab)))) ! 3))
     = Some 313624"
  by (simp_all add: SlabAllocator_allocate_def SlabAllocator_free_def ex_slab_snd fresh_pool_def
      Allocator_block_size_def raw_block_size_slab Allocator_allocate_def Allocator_free_def
      Let_def case_prod_unfold arith_defs)

text \<open>
  C2 fails on the code. The dispatcher compares the request with \<open>block_size()\<close>, which
  is the stride of the pool (header, payload and padding), not its payload capacity:
  on the release dispatcher the first pool has stride 72 and the last 520, so
  \<open>allocate(70)\<close> returns a block of the pool for 64 bytes and \<open>allocate(515)\<close> returns a
  block of the pool for 512 bytes instead of \<open>nullptr\<close>.
\<close>

theorem slab_allocate_compares_stride:
  "size_classes (snd ex_slab) = [Some 64, Some 128, Some 256, Some 512] \<and>
   Allocator_block_size (snd ex_slab ! 0) = Returned 72 \<and>
   fst (SlabAllocator_allocate False 70 ex_slab) = Returned 72672 \<and>
   block_ptr_of False 72672 \<in> set (slots (the (m_MemoryPool (snd ex_slab ! 0)))) \<and>
   Allocator_block_size (snd ex_slab ! 3) = Returned 520 \<and>
   fst (SlabAllocator_allocate False 515 ex_slab) = Returned 313632 \<and>
   block_ptr_of False 313632 \<in> set (slots (the (m_MemoryPool (snd ex_slab ! 3))))"
proof -
  have "block_ptr_of False 72672 = 65536 + 99 * 72"
    by (simp add: block_ptr_of_def arith_defs)
  hence 1: "block_ptr_of False 72672 \<in> set (slots (the (m_MemoryPool (snd ex_slab ! 0))))"
    by (simp only: in_slots) (simp add: ex_slab_snd fresh_pool_def raw_block_size_slab)
  have "block_ptr_of False 313632 = 262144 + 99 * 520"
    by (simp add: block_ptr_of_def arith_defs)
  hence 2: "block_ptr_of False 313632 \<in> set (slots (the (m_MemoryPool (snd ex_slab ! 3))))"
    by (simp only: in_slots) (simp add: ex_slab_snd fresh_pool_def raw_block_size_slab)
  have 3: "Allocator_block_size (snd ex_slab ! 0) = Returned 72"
    "Allocator_block_size (snd ex_slab ! 3) = Returned 520"
    by (simp_all add: ex_slab_snd block_size_fresh_pool raw_block_size_slab)
  from 1 2 3 ex_slab_classes ex_slab_allocate_70 ex_slab_allocate_515 show ?thesis
    by simp
qed

text \<open>
  C10 fails on the code, by the same comparison with the stride. With a size of 515,
  above the largest size class, \<open>free(ptr, size)\<close> is forwarded to the pool for 512
  bytes: for a pointer outside its buffer the pool aborts, and for a pointer that this
  pool handed out the block returns to the head of its free list.
\<close>

theorem slab_free_forwards_above_largest_class:
  "size_classes (snd ex_slab) = [Some 64, Some 128, Some 256, Some 512] \<and>
   fst (SlabAllocator_free False 4096 515 ex_slab) = Aborted NotFromPool \<and>
   fst (SlabAllocator_allocate False 500 ex_slab) = Returned 313632 \<and>
   fst (SlabAllocator_free False 313632 515 (snd (SlabAllocator_allocate False 500 ex_slab)))
     = Returned () \<and>
   map_option free_list
     (m_MemoryPool (snd (snd (SlabAllocator_free False 313632 515
                               (snd (SlabAllocator_allocate False 500 ex_slab)))) ! 3))
     = Some (block_ptr_of False 313632)"
proof -
  have "block_ptr_of False 313632 = 313624"
    by (simp add: block_ptr_of_def arith_defs)
  with ex_slab_classes ex_slab_free_foreign ex_slab_allocate_500 ex_slab_free_515
  show ?thesis by simp
qed

end
